theory Spec2Isabelle
  imports Complex_Main "HOL-Library.AList" "HOL-Library.Log_Nat"
begin

section \<open>JavaScript values\<close>

text \<open>
  The program (\<^verbatim>\<open>src/App.js\<close>) computes with JavaScript numbers, which are IEEE-754
  doubles. A finite double is \<open>Num x\<close> for the rational \<open>x\<close> it denotes; \<open>NaN\<close> and the two
  infinities are values of their own. Every arithmetic operation rounds its exact result to
  the nearest double, ties to even (\<open>fl\<close> below). The two zeros are not told apart: they
  compare equal, both are falsy, and the program never divides by a zero (both of its
  divisions are guarded by a truthiness test of the divisor).

  Beside numbers, a property read can give \<^verbatim>\<open>undefined\<close>, or an object that every
  dictionary object inherits from \<^verbatim>\<open>Object.prototype\<close>: \<open>Builtin k\<close> is the value of
  \<^verbatim>\<open>Object.prototype[k]\<close> (a function, or \<^verbatim>\<open>Object.prototype\<close> itself for \<^verbatim>\<open>__proto__\<close>).
\<close>

datatype jsval = Num rat | NaN | PInf | NInf | Undefined | Builtin string

subsection \<open>Rounding to the nearest double\<close>

text \<open>\<open>ilog2 x\<close> is the binary exponent of \<open>x \<noteq> 0\<close>: \<open>2 ^ ilog2 x \<le> \<bar>x\<bar> < 2 ^ (ilog2 x + 1)\<close>.\<close>

definition ilog2 :: "rat \<Rightarrow> int" where
  "ilog2 x =
     (let (n, d) = quotient_of \<bar>x\<bar>; k = bitlen n - bitlen d
      in if 2 powi k \<le> \<bar>x\<bar> then k else k - 1)"

text \<open>The nearest integer, a tie going to the even one.\<close>

definition round_even :: "rat \<Rightarrow> int" where
  "round_even x =
     (let f = \<lfloor>x\<rfloor>; r = x - of_int f
      in if r < 1 / 2 then f else if 1 / 2 < r then f + 1 else if even f then f else f + 1)"

text \<open>The exponent of the unit in the last place: 53 significant bits, and the
  subnormal spacing \<open>2 ^ -1074\<close> at the bottom.\<close>

definition ulp_exp :: "rat \<Rightarrow> int" where
  "ulp_exp x = max (ilog2 x - 52) (- 1074)"

definition round_dbl :: "rat \<Rightarrow> rat" where
  "round_dbl x =
     (if x = 0 then 0 else of_int (round_even (x / 2 powi ulp_exp x)) * 2 powi ulp_exp x)"

text \<open>\<open>fl x\<close> is the double nearest to \<open>x\<close>; a rounded magnitude of \<open>2 ^ 1024\<close> or more
  overflows to an infinity.\<close>

definition fl :: "rat \<Rightarrow> jsval" where
  "fl x =
     (let y = round_dbl x
      in if y = 0 then Num 0
         else if ilog2 y < 1024 then Num y
         else if 0 < y then PInf else NInf)"

text \<open>The values that are numbers other than \<open>NaN\<close>, and the values a double variable can
  hold: a \<open>Num x\<close> only for an \<open>x\<close> that rounding leaves as it is.\<close>

fun isNum :: "jsval \<Rightarrow> bool" where
  "isNum (Num a) = True"
| "isNum PInf = True"
| "isNum NInf = True"
| "isNum _ = False"

fun isDouble :: "jsval \<Rightarrow> bool" where
  "isDouble (Num a) = (fl a = Num a)"
| "isDouble NaN = True"
| "isDouble PInf = True"
| "isDouble NInf = True"
| "isDouble _ = False"

subsection \<open>Operators\<close>

text \<open>\<^verbatim>\<open>ToNumber\<close>: \<^verbatim>\<open>undefined\<close> and the inherited objects (whose string form is not
  numeric) convert to \<open>NaN\<close>.\<close>

fun toNumber :: "jsval \<Rightarrow> jsval" where
  "toNumber Undefined = NaN"
| "toNumber (Builtin k) = NaN"
| "toNumber v = v"

fun add_num :: "jsval \<Rightarrow> jsval \<Rightarrow> jsval" where
  "add_num (Num a) (Num b) = fl (a + b)"
| "add_num PInf NInf = NaN"
| "add_num NInf PInf = NaN"
| "add_num PInf PInf = PInf"
| "add_num PInf (Num b) = PInf"
| "add_num (Num a) PInf = PInf"
| "add_num NInf NInf = NInf"
| "add_num NInf (Num b) = NInf"
| "add_num (Num a) NInf = NInf"
| "add_num _ _ = NaN"

fun neg_num :: "jsval \<Rightarrow> jsval" where
  "neg_num (Num a) = Num (- a)"
| "neg_num PInf = NInf"
| "neg_num NInf = PInf"
| "neg_num _ = NaN"

fun mul_num :: "jsval \<Rightarrow> jsval \<Rightarrow> jsval" where
  "mul_num (Num a) (Num b) = fl (a * b)"
| "mul_num PInf (Num b) = (if b = 0 then NaN else if 0 < b then PInf else NInf)"
| "mul_num NInf (Num b) = (if b = 0 then NaN else if 0 < b then NInf else PInf)"
| "mul_num (Num a) PInf = (if a = 0 then NaN else if 0 < a then PInf else NInf)"
| "mul_num (Num a) NInf = (if a = 0 then NaN else if 0 < a then NInf else PInf)"
| "mul_num PInf PInf = PInf"
| "mul_num NInf NInf = PInf"
| "mul_num PInf NInf = NInf"
| "mul_num NInf PInf = NInf"
| "mul_num _ _ = NaN"

text \<open>A quotient by zero takes the zero as positive (the zeros are not told apart); no
  division of the program reaches it.\<close>

fun div_num :: "jsval \<Rightarrow> jsval \<Rightarrow> jsval" where
  "div_num (Num a) (Num b) =
     (if b = 0 then (if a = 0 then NaN else if 0 < a then PInf else NInf) else fl (a / b))"
| "div_num (Num a) PInf = Num 0"
| "div_num (Num a) NInf = Num 0"
| "div_num PInf (Num b) = (if 0 \<le> b then PInf else NInf)"
| "div_num NInf (Num b) = (if 0 \<le> b then NInf else PInf)"
| "div_num _ _ = NaN"

text \<open>The order of the numbers; nothing is below, above or equal to \<open>NaN\<close>.\<close>

fun lt_num :: "jsval \<Rightarrow> jsval \<Rightarrow> bool" where
  "lt_num (Num a) (Num b) = (a < b)"
| "lt_num NInf (Num b) = True"
| "lt_num NInf PInf = True"
| "lt_num (Num a) PInf = True"
| "lt_num _ _ = False"

fun le_num :: "jsval \<Rightarrow> jsval \<Rightarrow> bool" where
  "le_num (Num a) (Num b) = (a \<le> b)"
| "le_num NInf (Num b) = True"
| "le_num NInf PInf = True"
| "le_num NInf NInf = True"
| "le_num (Num a) PInf = True"
| "le_num PInf PInf = True"
| "le_num _ _ = False"

text \<open>
  The operators \<^verbatim>\<open>+\<close>, \<^verbatim>\<open>-\<close>, \<^verbatim>\<open>*\<close>, \<^verbatim>\<open>/\<close>, \<^verbatim>\<open><\<close>, \<^verbatim>\<open>>\<close>, \<^verbatim>\<open>>=\<close> on the values of this
  program. \<^verbatim>\<open>+\<close> and the comparisons are applied to numbers and \<^verbatim>\<open>undefined\<close> only (never
  to an object or a string), so they are the numeric ones.
\<close>

definition jadd :: "jsval \<Rightarrow> jsval \<Rightarrow> jsval" where
  "jadd a b = add_num (toNumber a) (toNumber b)"

definition jsub :: "jsval \<Rightarrow> jsval \<Rightarrow> jsval" where
  "jsub a b = add_num (toNumber a) (neg_num (toNumber b))"

definition jmul :: "jsval \<Rightarrow> jsval \<Rightarrow> jsval" where
  "jmul a b = mul_num (toNumber a) (toNumber b)"

definition jdiv :: "jsval \<Rightarrow> jsval \<Rightarrow> jsval" where
  "jdiv a b = div_num (toNumber a) (toNumber b)"

definition jlt :: "jsval \<Rightarrow> jsval \<Rightarrow> bool" where
  "jlt a b = lt_num (toNumber a) (toNumber b)"

definition jgt :: "jsval \<Rightarrow> jsval \<Rightarrow> bool" where
  "jgt a b = lt_num (toNumber b) (toNumber a)"

definition jge :: "jsval \<Rightarrow> jsval \<Rightarrow> bool" where
  "jge a b = le_num (toNumber b) (toNumber a)"

text \<open>\<^verbatim>\<open>a === b\<close>.\<close>

fun strict_eq :: "jsval \<Rightarrow> jsval \<Rightarrow> bool" where
  "strict_eq NaN _ = False"
| "strict_eq _ NaN = False"
| "strict_eq a b = (a = b)"

text \<open>Truthiness: \<open>0\<close>, \<open>NaN\<close> and \<^verbatim>\<open>undefined\<close> are falsy, every object is truthy.\<close>

fun truthy :: "jsval \<Rightarrow> bool" where
  "truthy (Num a) = (a \<noteq> 0)"
| "truthy NaN = False"
| "truthy Undefined = False"
| "truthy _ = True"

text \<open>\<^verbatim>\<open>a ?? b\<close>.\<close>

definition nullish :: "jsval \<Rightarrow> jsval \<Rightarrow> jsval" where
  "nullish a b = (if a = Undefined then b else a)"

text \<open>\<^verbatim>\<open>Math.max\<close>, \<^verbatim>\<open>Math.min\<close> (\<open>NaN\<close> if an argument is \<open>NaN\<close>) and \<^verbatim>\<open>Math.floor\<close>.\<close>

definition Math_max :: "jsval \<Rightarrow> jsval \<Rightarrow> jsval" where
  "Math_max a b =
     (let x = toNumber a; y = toNumber b
      in if x = NaN \<or> y = NaN then NaN else if le_num x y then y else x)"

definition Math_min :: "jsval \<Rightarrow> jsval \<Rightarrow> jsval" where
  "Math_min a b =
     (let x = toNumber a; y = toNumber b
      in if x = NaN \<or> y = NaN then NaN else if le_num x y then x else y)"

fun Math_floor :: "jsval \<Rightarrow> jsval" where
  "Math_floor (Num a) = Num (of_int \<lfloor>a\<rfloor>)"
| "Math_floor PInf = PInf"
| "Math_floor NInf = NInf"
| "Math_floor _ = NaN"

text \<open>
  \<^verbatim>\<open>parseInt(s, 10)\<close>: leading white space is skipped, one sign is read, then the longest
  run of decimal digits; with no digit the result is \<open>NaN\<close>, otherwise the double nearest
  to the integer read. Strings are byte strings, so only the ASCII white space characters
  are recognised.
\<close>

definition is_ws :: "char \<Rightarrow> bool" where
  "is_ws c = (c \<in> set [CHR '' '', CHR 0x09, CHR 0x0A, CHR 0x0B, CHR 0x0C, CHR 0x0D])"

definition is_digit :: "char \<Rightarrow> bool" where
  "is_digit c = (c \<in> set ''0123456789'')"

definition digit_val :: "char \<Rightarrow> int" where
  "digit_val c = int (of_char c) - 48"

definition digits_val :: "string \<Rightarrow> int" where
  "digits_val ds = foldl (\<lambda>acc c. acc * 10 + digit_val c) 0 ds"

definition parseInt :: "string \<Rightarrow> jsval" where
  "parseInt str =
     (let s = dropWhile is_ws str;
          sgn = (case s of c # _ \<Rightarrow> if c = CHR ''-'' then - 1 else 1 | [] \<Rightarrow> (1::int));
          s' = (case s of c # t \<Rightarrow> if c = CHR ''-'' \<or> c = CHR ''+'' then t else s | [] \<Rightarrow> s);
          z = takeWhile is_digit s'
      in if z = [] then NaN else fl (of_int (sgn * digits_val z)))"

text \<open>\<^verbatim>\<open>const clamp = (n, lo, hi) => Math.min(Math.max(n, lo), hi);\<close>\<close>

definition clamp :: "jsval \<Rightarrow> jsval \<Rightarrow> jsval \<Rightarrow> jsval" where
  "clamp n lo hi = Math_min (Math_max n lo) hi"

section \<open>Price simulation\<close>

text \<open>
  \<^verbatim>\<open>function driftPrice(p, v = 0.015)\<close>. The draw of \<^verbatim>\<open>Math.random()\<close> is the parameter \<open>r\<close>
  (a double in \<open>[0, 1)\<close>); an omitted second argument is \<open>None\<close>. A decimal literal is the
  double nearest to it.
\<close>

definition driftPrice :: "rat \<Rightarrow> jsval \<Rightarrow> jsval option \<Rightarrow> jsval" where
  "driftPrice r p vopt =
     (let v = (case vopt of None \<Rightarrow> fl (15 / 1000) | Some v' \<Rightarrow> v');
          change = jmul (jsub (jmul (Num r) (Num 2)) (Num 1)) v;
          np = jmul p (jadd (Num 1) change)
      in clamp np (Math_max (Num 1) (jmul p (fl (85 / 100)))) (jmul p (fl (115 / 100))))"

section \<open>Dictionary objects\<close>

text \<open>
  \<^verbatim>\<open>holdings\<close> and the price map are objects used as dictionaries. An object is the list
  of its own properties in the order \<^verbatim>\<open>Object.keys\<close> gives: the array indices in ascending
  order first, then the other keys in the order of their creation. A read \<^verbatim>\<open>obj[k]\<close> that
  finds no own property goes on to the prototype, \<^verbatim>\<open>Object.prototype\<close>, whose properties
  are the names of \<open>protoKeys\<close>.
\<close>

definition protoKeys :: "string list" where
  "protoKeys =
     [''constructor'', ''hasOwnProperty'', ''isPrototypeOf'', ''propertyIsEnumerable'',
      ''toLocaleString'', ''toString'', ''valueOf'', ''__proto__'',
      ''__defineGetter__'', ''__defineSetter__'', ''__lookupGetter__'', ''__lookupSetter__'']"

definition inherited :: "string \<Rightarrow> jsval" where
  "inherited k = (if k \<in> set protoKeys then Builtin k else Undefined)"

text \<open>A key is an array index when it is the canonical decimal form of an integer below
  \<open>2 ^ 32 - 1\<close>.\<close>

definition arrayIndex :: "string \<Rightarrow> nat option" where
  "arrayIndex k =
     (if k \<noteq> [] \<and> list_all is_digit k \<and> (if hd k = CHR ''0'' then k = ''0'' else True)
         \<and> digits_val k < 4294967295
      then Some (nat (digits_val k)) else None)"

fun insertIndexed :: "nat \<Rightarrow> string \<Rightarrow> 'a \<Rightarrow> (string \<times> 'a) list \<Rightarrow> (string \<times> 'a) list" where
  "insertIndexed i k v [] = [(k, v)]"
| "insertIndexed i k v (p # ps) =
     (case arrayIndex (fst p) of
        Some j \<Rightarrow> if j < i then p # insertIndexed i k v ps else (k, v) # p # ps
      | None \<Rightarrow> (k, v) # p # ps)"

text \<open>Writing an own property: an existing one keeps its place, a new one goes to the
  place its key has in the order.\<close>

definition setOwn :: "string \<Rightarrow> 'a \<Rightarrow> (string \<times> 'a) list \<Rightarrow> (string \<times> 'a) list" where
  "setOwn k v obj =
     (if map_of obj k \<noteq> None then AList.update k v obj
      else case arrayIndex k of None \<Rightarrow> obj @ [(k, v)] | Some i \<Rightarrow> insertIndexed i k v obj)"

section \<open>Application state\<close>

text \<open>
  The state object of \<^verbatim>\<open>App\<close>, as the persisted JSON schema types it. The write
  \<^verbatim>\<open>holdings['__proto__'] = pos\<close> to an object without an own property of that name does not
  create one: it makes \<open>pos\<close> the prototype of that \<^verbatim>\<open>holdings\<close> object. \<open>holdingsProto\<close>
  records it (\<open>None\<close> is the ordinary prototype).
\<close>

record WatchItem =
  w_symbol :: string
  w_price :: jsval

record Position =
  h_qty :: jsval
  h_avg :: jsval

datatype Side = BUY | SELL

text \<open>The string \<^verbatim>\<open>String(n)\<close> of a number, kept symbolic: the conversion of a number to
  a string is injective.\<close>

datatype numstring = String jsval

record TradeRecord =
  t_id :: numstring
  t_time :: jsval
  t_side :: Side
  t_symbol :: string
  t_qty :: jsval
  t_price :: jsval

record Settings =
  refreshSecs :: jsval

record AppState =
  cash :: jsval
  watchlist :: "WatchItem list"
  holdings :: "(string \<times> Position) list"
  holdingsProto :: "Position option"
  history :: "TradeRecord list"
  settings :: Settings

definition DEFAULT_SYMBOLS :: "string list" where
  "DEFAULT_SYMBOLS =
     [''AAPL'', ''MSFT'', ''TSLA'', ''GOOGL'', ''AMZN'', ''NVDA'',
      ''RELIANCE.NS'', ''TCS.NS'', ''HDFCBANK.NS'']"

definition STORAGE_KEY :: string where
  "STORAGE_KEY = ''paper-trader-mobile-v1''"

text \<open>\<^verbatim>\<open>100 + Math.random() * 200\<close>, for the draw \<open>r\<close>.\<close>

definition seedPrice :: "rat \<Rightarrow> jsval" where
  "seedPrice r = jadd (Num 100) (jmul (Num r) (Num 200))"

text \<open>\<^verbatim>\<open>initialState\<close>; \<open>seeds i\<close> is the draw of \<^verbatim>\<open>Math.random()\<close> for the \<open>i\<close>-th default
  symbol, made once when the module is loaded.\<close>

definition initialState :: "(nat \<Rightarrow> rat) \<Rightarrow> AppState" where
  "initialState seeds =
     \<lparr>cash = Num 10000,
      watchlist = map (\<lambda>(i, s). \<lparr>w_symbol = s, w_price = seedPrice (seeds i)\<rparr>)
                    (enumerate 0 DEFAULT_SYMBOLS),
      holdings = [],
      holdingsProto = None,
      history = [],
      settings = \<lparr>refreshSecs = Num 8\<rparr>\<rparr>"

text \<open>
  \<^verbatim>\<open>priceMapFrom\<close>: a later watchlist entry overwrites an earlier one of the same symbol.
  For the symbol \<^verbatim>\<open>__proto__\<close> the write \<^verbatim>\<open>m[w.symbol] = w.price\<close> reaches the setter of
  \<^verbatim>\<open>Object.prototype\<close>, which ignores a price that is not an object (prices are numbers).
\<close>

definition priceMapFrom :: "WatchItem list \<Rightarrow> (string \<times> jsval) list" where
  "priceMapFrom wl =
     fold (\<lambda>w m. if w_symbol w = ''__proto__'' then m else setOwn (w_symbol w) (w_price w) m) wl []"

text \<open>\<^verbatim>\<open>priceMap[sym]\<close>.\<close>

definition lookupPrice :: "(string \<times> jsval) list \<Rightarrow> string \<Rightarrow> jsval" where
  "lookupPrice priceMap k = (case map_of priceMap k of Some v \<Rightarrow> v | None \<Rightarrow> inherited k)"

text \<open>
  What \<^verbatim>\<open>holdings[sym]\<close> can give: a position object, or another value (\<^verbatim>\<open>undefined\<close>, an
  inherited object, or a field of a position that has become the prototype).
\<close>

datatype hval = HPos Position | HVal jsval

definition lookupHolding :: "(string \<times> Position) list \<Rightarrow> Position option \<Rightarrow> string \<Rightarrow> hval" where
  "lookupHolding hs proto k =
     (case map_of hs k of
        Some pos \<Rightarrow> HPos pos
      | None \<Rightarrow>
          (case proto of
             None \<Rightarrow> HVal (inherited k)
           | Some p \<Rightarrow>
               if k = ''qty'' then HVal (h_qty p)
               else if k = ''avg'' then HVal (h_avg p)
               else if k = ''__proto__'' then HPos p
               else HVal (inherited k)))"

text \<open>\<^verbatim>\<open>!h\<close> is \<open>\<not> hTruthy h\<close>; \<^verbatim>\<open>h.qty\<close> and \<^verbatim>\<open>h.avg\<close>, which are \<^verbatim>\<open>undefined\<close> on an inherited
  object and on a number (they are not read on a falsy \<open>h\<close>).\<close>

fun hTruthy :: "hval \<Rightarrow> bool" where
  "hTruthy (HPos pos) = True"
| "hTruthy (HVal v) = truthy v"

fun qtyOf :: "hval \<Rightarrow> jsval" where
  "qtyOf (HPos pos) = h_qty pos"
| "qtyOf (HVal v) = Undefined"

fun avgOf :: "hval \<Rightarrow> jsval" where
  "avgOf (HPos pos) = h_avg pos"
| "avgOf (HVal v) = Undefined"

text \<open>\<^verbatim>\<open>holdings[symbol] = pos\<close> on the fresh copy \<^verbatim>\<open>{...prev.holdings}\<close>, whose prototype is
  the ordinary one: the new own properties and the new prototype.\<close>

definition assignHolding ::
  "string \<Rightarrow> Position \<Rightarrow> (string \<times> Position) list \<Rightarrow> (string \<times> Position) list \<times> Position option" where
  "assignHolding k pos hs =
     (if map_of hs k = None \<and> k = ''__proto__'' then (hs, Some pos) else (setOwn k pos hs, None))"

record PnL =
  pnl :: jsval
  change :: jsval

text \<open>\<^verbatim>\<open>pnlForSymbol(sym, holdings, priceMap)\<close>; the \<^verbatim>\<open>holdings\<close> object is given by its own
  properties and its prototype.\<close>

definition pnlForSymbol ::
  "string \<Rightarrow> (string \<times> Position) list \<times> Position option \<Rightarrow> (string \<times> jsval) list \<Rightarrow> PnL" where
  "pnlForSymbol symb hobj priceMap =
     (let h = lookupHolding (fst hobj) (snd hobj) symb in
      if \<not> hTruthy h then \<lparr>pnl = Num 0, change = Num 0\<rparr>
      else
        let lastp = nullish (lookupPrice priceMap symb) (Num 0);
            pnl' = jmul (jsub lastp (avgOf h)) (qtyOf h);
            change' = (if truthy (avgOf h) then jdiv (jsub lastp (avgOf h)) (avgOf h) else Num 0)
        in \<lparr>pnl = pnl', change = change'\<rparr>)"

text \<open>The callback of the \<^verbatim>\<open>reduce\<close> that computes \<^verbatim>\<open>equity\<close>, and the reduction over
  \<^verbatim>\<open>Object.keys(state.holdings)\<close>, the own keys. Every own key has a position; the \<open>None\<close>
  case is there only to make the function total.\<close>

definition equityStep :: "(string \<times> Position) list \<Rightarrow> (string \<times> jsval) list \<Rightarrow> jsval \<Rightarrow> string \<Rightarrow> jsval" where
  "equityStep hs priceMap acc symb =
     (case map_of hs symb of
        None \<Rightarrow> acc
      | Some h \<Rightarrow>
          let p = nullish (lookupPrice priceMap symb) (Num 0)
          in jadd acc (jmul (h_qty h) p))"

definition equity :: "(string \<times> Position) list \<Rightarrow> (string \<times> jsval) list \<Rightarrow> jsval" where
  "equity hs priceMap = foldl (equityStep hs priceMap) (Num 0) (map fst hs)"

section \<open>Trading\<close>

text \<open>What \<^verbatim>\<open>doTrade\<close> reads from its environment when it builds the trade record: the
  two readings of \<^verbatim>\<open>Date.now()\<close> and the draw of \<^verbatim>\<open>Math.random()\<close>.\<close>

record Env =
  now_id :: rat
  rnd :: rat
  now_time :: rat

text \<open>Line 132: the record put in front of the history.\<close>

definition newRecord :: "Env \<Rightarrow> Side \<Rightarrow> string \<Rightarrow> jsval \<Rightarrow> jsval \<Rightarrow> TradeRecord" where
  "newRecord env side symbol q price =
     \<lparr>t_id = String (jadd (Num (now_id env)) (Num (rnd env))),
      t_time = Num (now_time env),
      t_side = side, t_symbol = symbol, t_qty = q, t_price = price\<rparr>"

text \<open>
  The function given to \<^verbatim>\<open>setState\<close> (lines 110 to 134), with \<^verbatim>\<open>side\<close>, \<^verbatim>\<open>symbol\<close>, \<^verbatim>\<open>q\<close> and
  \<^verbatim>\<open>price\<close> of its closure as arguments. The result is the list of messages given to
  \<^verbatim>\<open>Alert.alert\<close> and the state returned.
\<close>

definition tradeReducer ::
  "Env \<Rightarrow> Side \<Rightarrow> string \<Rightarrow> jsval \<Rightarrow> jsval \<Rightarrow> AppState \<Rightarrow> string list \<times> AppState" where
  "tradeReducer env side symbol q price prev =
     (case side of
        BUY \<Rightarrow>
          (let cost = jmul q price in
           if jgt cost (cash prev) then ([''Not enough cash''], prev)
           else
             let h0 = lookupHolding (holdings prev) None symbol;
                 h = (if hTruthy h0 then h0 else HPos \<lparr>h_qty = Num 0, h_avg = Num 0\<rparr>);
                 newQty = jadd (qtyOf h) q;
                 newAvg = (if truthy newQty
                           then jdiv (jadd (jmul (qtyOf h) (avgOf h)) (jmul q price)) newQty
                           else price);
                 obj = assignHolding symbol \<lparr>h_qty = newQty, h_avg = newAvg\<rparr> (holdings prev)
             in ([], prev\<lparr>holdings := fst obj, holdingsProto := snd obj,
                          cash := jsub (cash prev) cost,
                          history := newRecord env side symbol q price # history prev\<rparr>))
      | SELL \<Rightarrow>
          (let h = lookupHolding (holdings prev) None symbol in
           if \<not> hTruthy h then ([''Not enough shares''], prev)
           else if jlt (qtyOf h) q then ([''Not enough shares''], prev)
           else
             let remaining = jsub (qtyOf h) q;
                 obj = (if strict_eq remaining (Num 0)
                        then (AList.delete symbol (holdings prev), None)
                        else assignHolding symbol \<lparr>h_qty = remaining, h_avg = avgOf h\<rparr> (holdings prev))
             in ([], prev\<lparr>holdings := fst obj, holdingsProto := snd obj,
                          cash := jadd (cash prev) (jmul q price),
                          history := newRecord env side symbol q price # history prev\<rparr>)))"

text \<open>Line 106: \<^verbatim>\<open>Math.max(1, Math.floor(parseInt(qty || '1', 10)))\<close>.\<close>

definition tradeQty :: "string \<Rightarrow> jsval" where
  "tradeQty qty = Math_max (Num 1) (Math_floor (parseInt (if qty = [] then ''1'' else qty)))"

text \<open>\<^verbatim>\<open>doTrade(side)\<close>; the text fields \<^verbatim>\<open>symbol\<close> and \<^verbatim>\<open>qty\<close> are arguments. Without a
  truthy price nothing happens and nothing is reported.\<close>

definition doTrade :: "Env \<Rightarrow> string \<Rightarrow> string \<Rightarrow> Side \<Rightarrow> AppState \<Rightarrow> string list \<times> AppState" where
  "doTrade env symbol qty side s =
     (let q = tradeQty qty;
          price = nullish (lookupPrice (priceMapFrom (watchlist s)) symbol) (Num 0)
      in if \<not> truthy price then ([], s) else tradeReducer env side symbol q price s)"

section \<open>Watchlist, tick and reset\<close>

text \<open>\<^verbatim>\<open>trim\<close> and \<^verbatim>\<open>toUpperCase\<close> on ASCII strings.\<close>

definition trim :: "string \<Rightarrow> string" where
  "trim s = rev (dropWhile is_ws (rev (dropWhile is_ws s)))"

definition upper_char :: "char \<Rightarrow> char" where
  "upper_char c =
     (let n = (of_char c :: nat) in if 97 \<le> n \<and> n \<le> 122 then char_of (n - 32) else c)"

definition toUpperCase :: "string \<Rightarrow> string" where
  "toUpperCase s = map upper_char s"

text \<open>The tick of the interval timer; \<open>rs i\<close> is the draw for the \<open>i\<close>-th watchlist entry.\<close>

definition tick :: "(nat \<Rightarrow> rat) \<Rightarrow> AppState \<Rightarrow> AppState" where
  "tick rs prev =
     prev\<lparr>watchlist := map (\<lambda>(i, w). w\<lparr>w_price := driftPrice (rs i) (w_price w) None\<rparr>)
                          (enumerate 0 (watchlist prev))\<rparr>"

definition addSymbolToWatch :: "rat \<Rightarrow> string \<Rightarrow> AppState \<Rightarrow> AppState" where
  "addSymbolToWatch r addSym s =
     (let symb = toUpperCase (trim addSym) in
      if symb = [] then s
      else if find (\<lambda>w. w_symbol w = symb) (watchlist s) \<noteq> None then s
      else s\<lparr>watchlist := \<lparr>w_symbol = symb, w_price = seedPrice r\<rparr> # watchlist s\<rparr>)"

definition removeSymbol :: "string \<Rightarrow> AppState \<Rightarrow> AppState" where
  "removeSymbol symb prev = prev\<lparr>watchlist := filter (\<lambda>w. w_symbol w \<noteq> symb) (watchlist prev)\<rparr>"

text \<open>\<^verbatim>\<open>resetAll\<close>: \<open>ok\<close> says whether the user pressed OK in the confirmation dialog.\<close>

definition resetAll :: "(nat \<Rightarrow> rat) \<Rightarrow> bool \<Rightarrow> AppState \<Rightarrow> AppState" where
  "resetAll seeds ok s = (if ok then initialState seeds else s)"

text \<open>The user's and the timer's actions, and a run of them from a state.\<close>

datatype action =
    Trade Env string string Side
  | Tick "nat \<Rightarrow> rat"
  | AddSymbol rat string
  | RemoveSymbol string
  | ResetAll bool

fun step :: "(nat \<Rightarrow> rat) \<Rightarrow> AppState \<Rightarrow> action \<Rightarrow> AppState" where
  "step seeds s (Trade env symbol qty side) = snd (doTrade env symbol qty side s)"
| "step seeds s (Tick rs) = tick rs s"
| "step seeds s (AddSymbol r addSym) = addSymbolToWatch r addSym s"
| "step seeds s (RemoveSymbol symb) = removeSymbol symb s"
| "step seeds s (ResetAll ok) = resetAll seeds ok s"

definition run :: "(nat \<Rightarrow> rat) \<Rightarrow> action list \<Rightarrow> AppState" where
  "run seeds acts = foldl (step seeds) (initialState seeds) acts"

section \<open>Loading the persisted state\<close>

text \<open>
  What \<^verbatim>\<open>JSON.parse\<close> returns. \<^verbatim>\<open>loadState\<close> returns whatever the stored text holds under
  the top-level keys, so its result is an object of JSON values and not an \<open>AppState\<close>.
\<close>

datatype json =
    JNull
  | JBool bool
  | JNum jsval
  | JStr string
  | JArr "json list"
  | JObj "(string \<times> json) list"

text \<open>The decimal name of an array index.\<close>

function string_of_nat :: "nat \<Rightarrow> string" where
  "string_of_nat n =
     (if 10 \<le> n then string_of_nat (n div 10) else []) @ [char_of (n mod 10 + 48)]"
  by pat_completeness auto
termination
  by (relation "measure (\<lambda>n. n)") auto

text \<open>The own enumerable properties an object spread \<^verbatim>\<open>{...v}\<close> copies: those of an
  object, the indices of an array or of a string, none of \<^verbatim>\<open>null\<close>, a boolean or a number.\<close>

definition ownProps :: "json \<Rightarrow> (string \<times> json) list" where
  "ownProps v =
     (case v of
        JObj kvs \<Rightarrow> kvs
      | JArr xs \<Rightarrow> map (\<lambda>(i, x). (string_of_nat i, x)) (enumerate 0 xs)
      | JStr cs \<Rightarrow> map (\<lambda>(i, c). (string_of_nat i, JStr [c])) (enumerate 0 cs)
      | _ \<Rightarrow> [])"

definition spreadInto :: "(string \<times> json) list \<Rightarrow> (string \<times> json) list \<Rightarrow> (string \<times> json) list" where
  "spreadInto obj props = fold (\<lambda>(k, v) ob. AList.update k v ob) props obj"

definition watchItemJ :: "WatchItem \<Rightarrow> json" where
  "watchItemJ w = JObj [(''symbol'', JStr (w_symbol w)), (''price'', JNum (w_price w))]"

text \<open>\<^verbatim>\<open>initialState\<close> again, as the object \<^verbatim>\<open>loadState\<close> spreads.\<close>

definition initialStateJ :: "(nat \<Rightarrow> rat) \<Rightarrow> (string \<times> json) list" where
  "initialStateJ seeds =
     (let s = initialState seeds in
      [(''cash'', JNum (cash s)),
       (''watchlist'', JArr (map watchItemJ (watchlist s))),
       (''holdings'', JObj []),
       (''history'', JArr []),
       (''settings'', JObj [(''refreshSecs'', JNum (refreshSecs (settings s)))])])"

text \<open>How the promise of \<^verbatim>\<open>AsyncStorage.getItem\<close> settles; \<^verbatim>\<open>await\<close> throws on \<open>Rejected\<close>.\<close>

datatype 'a settled = Resolved 'a | Rejected

text \<open>
  \<^verbatim>\<open>loadState\<close>. The store \<open>getItem\<close> and \<^verbatim>\<open>JSON.parse\<close> (\<open>None\<close> when it throws) are
  parameters. Every throw inside the \<^verbatim>\<open>try\<close> ends in the \<^verbatim>\<open>catch\<close>, which returns
  \<^verbatim>\<open>initialState\<close>.
\<close>

definition loadState ::
  "(nat \<Rightarrow> rat) \<Rightarrow> (string \<Rightarrow> string option settled) \<Rightarrow> (string \<Rightarrow> json option) \<Rightarrow> (string \<times> json) list" where
  "loadState seeds getItem JSON_parse =
     (case getItem STORAGE_KEY of
        Rejected \<Rightarrow> initialStateJ seeds
      | Resolved None \<Rightarrow> initialStateJ seeds
      | Resolved (Some raw) \<Rightarrow>
          if raw = [] then initialStateJ seeds
          else (case JSON_parse raw of
                  None \<Rightarrow> initialStateJ seeds
                | Some parsed \<Rightarrow> spreadInto (spreadInto [] (initialStateJ seeds)) (ownProps parsed)))"

section \<open>A worked scenario\<close>

text \<open>Concrete inputs on which the theorems below are run: an environment, and a state
  holding one AAPL position of \<open>q\<close> shares at the average cost \<open>a\<close> beside the cash \<open>c\<close>.\<close>

definition env0 :: Env where
  "env0 = \<lparr>now_id = 1700000000000, rnd = 1 / 4, now_time = 1700000000001\<rparr>"

definition held :: "rat \<Rightarrow> rat \<Rightarrow> rat \<Rightarrow> AppState" where
  "held c q a =
     \<lparr>cash = Num c, watchlist = [\<lparr>w_symbol = ''AAPL'', w_price = Num 170\<rparr>],
      holdings = [(''AAPL'', \<lparr>h_qty = Num q, h_avg = Num a\<rparr>)], holdingsProto = None,
      history = [],
      settings = \<lparr>refreshSecs = Num 8\<rparr>\<rparr>"

text \<open>The state after a buy with the quantity text \<open>"."\<close> and the removal of the symbol
  from the watchlist.\<close>

definition strayState :: AppState where
  "strayState = run (\<lambda>i. 1 / 2) [Trade env0 ''AAPL'' ''.'' BUY, RemoveSymbol ''AAPL'']"

text \<open>A store holding the text \<^verbatim>\<open>{"cash":5}\<close> under the storage key, and a parser that
  knows this text only.\<close>

definition blob0 :: string where
  "blob0 = ''{'' @ [CHR 0x22] @ ''cash'' @ [CHR 0x22] @ '':5}''"

definition store0 :: "string \<Rightarrow> string option settled" where
  "store0 key = (if key = STORAGE_KEY then Resolved (Some blob0) else Resolved None)"

definition parse0 :: "string \<Rightarrow> json option" where
  "parse0 txt = (if txt = blob0 then Some (JObj [(''cash'', JNum (Num 5))]) else None)"

section \<open>Rounding is monotone and idempotent\<close>

lemma bitlen_powi:
  fixes n :: int
  assumes "0 < n"
  shows "2 powi (bitlen n - 1) \<le> (of_int n :: rat)" and "(of_int n :: rat) < 2 powi bitlen n"
proof -
  from assms have b: "1 \<le> bitlen n" by (simp add: bitlen_alt_def)
  from bitlen_bounds[OF assms] have lo: "2 ^ nat (bitlen n - 1) \<le> n" and hi: "n < 2 ^ nat (bitlen n)"
    by simp_all
  have "(of_int (2 ^ nat (bitlen n - 1)) :: rat) \<le> of_int n" using lo by (simp only: of_int_le_iff)
  then show "2 powi (bitlen n - 1) \<le> (of_int n :: rat)"
    using b by (simp add: power_int_nonneg_exp)
  have "(of_int n :: rat) < of_int (2 ^ nat (bitlen n))" using hi by (simp only: of_int_less_iff)
  then show "(of_int n :: rat) < 2 powi bitlen n"
    using b by (simp add: power_int_nonneg_exp)
qed

lemma ilog2_bounds:
  assumes "x \<noteq> 0"
  shows "2 powi ilog2 x \<le> \<bar>x\<bar>" and "\<bar>x\<bar> < 2 powi (ilog2 x + 1)"
proof -
  obtain n d where nd: "quotient_of \<bar>x\<bar> = (n, d)" by (cases "quotient_of \<bar>x\<bar>")
  have d: "0 < d" using quotient_of_denom_pos[OF nd] .
  have a: "\<bar>x\<bar> = of_int n / of_int d" using quotient_of_div[OF nd] .
  have "0 < \<bar>x\<bar>" using assms by simp
  then have n: "0 < n" using a d by (simp add: zero_less_divide_iff)
  define k where "k = bitlen n - bitlen d"
  have dpos: "(0::rat) < of_int d" using d by simp
  have up: "\<bar>x\<bar> < 2 powi (k + 1)"
  proof -
    have "of_int n < (2::rat) powi bitlen n" using bitlen_powi(2)[OF n] .
    also have "\<dots> = 2 powi (k + 1) * 2 powi (bitlen d - 1)"
      by (simp add: k_def power_int_add[symmetric])
    also have "\<dots> \<le> 2 powi (k + 1) * of_int d"
      using bitlen_powi(1)[OF d] by (simp add: mult_left_mono)
    finally show ?thesis using dpos by (simp add: a pos_divide_less_eq)
  qed
  have low: "2 powi (k - 1) \<le> \<bar>x\<bar>"
  proof -
    have "2 powi (k - 1) * of_int d \<le> (2::rat) powi (k - 1) * 2 powi bitlen d"
      using bitlen_powi(2)[OF d] by (simp add: mult_left_mono)
    also have "\<dots> = 2 powi (bitlen n - 1)"
      by (simp add: k_def power_int_add[symmetric])
    also have "\<dots> \<le> of_int n" using bitlen_powi(1)[OF n] .
    finally show ?thesis using dpos by (simp add: a pos_le_divide_eq)
  qed
  have e: "ilog2 x = (if 2 powi k \<le> \<bar>x\<bar> then k else k - 1)"
    by (simp add: ilog2_def nd k_def Let_def)
  show "2 powi ilog2 x \<le> \<bar>x\<bar>" using low by (simp add: e)
  show "\<bar>x\<bar> < 2 powi (ilog2 x + 1)" using up by (auto simp: e)
qed

lemma powi2_less_iff: "(2::rat) powi a < 2 powi b \<longleftrightarrow> a < b"
proof
  assume l: "(2::rat) powi a < 2 powi b"
  show "a < b"
  proof (rule ccontr)
    assume "\<not> a < b"
    then have "b \<le> a" by simp
    then have "(2::rat) powi b \<le> 2 powi a" by (rule power_int_increasing) simp
    with l show False by simp
  qed
next
  assume "a < b"
  then show "(2::rat) powi a < 2 powi b" by (rule power_int_strict_increasing) simp
qed

lemma powi2_le_iff: "(2::rat) powi a \<le> 2 powi b \<longleftrightarrow> a \<le> b"
  using powi2_less_iff[of b a] by (simp add: not_less[symmetric])

lemma ilog2_unique:
  assumes "2 powi e \<le> \<bar>x\<bar>" and "\<bar>x\<bar> < 2 powi (e + 1)"
  shows "ilog2 x = e"
proof -
  have "(0::rat) < 2 powi e" by simp
  with assms(1) have "0 < \<bar>x\<bar>" by linarith
  then have x: "x \<noteq> 0" by simp
  from ilog2_bounds[OF x] assms
  have "(2::rat) powi ilog2 x < 2 powi (e + 1)" and "(2::rat) powi e < 2 powi (ilog2 x + 1)"
    by linarith+
  then have "ilog2 x < e + 1" and "e < ilog2 x + 1"
    by (simp_all only: powi2_less_iff)
  then show ?thesis by simp
qed


lemma round_even_of_int: "round_even (of_int k) = k"
  by (simp add: round_even_def)

lemma round_even_range: "\<lfloor>x\<rfloor> \<le> round_even x" "round_even x \<le> \<lfloor>x\<rfloor> + 1"
  by (simp_all add: round_even_def Let_def)

lemma round_even_mono:
  assumes "x \<le> y"
  shows "round_even x \<le> round_even y"
proof (cases "\<lfloor>x\<rfloor> < \<lfloor>y\<rfloor>")
  case True
  then show ?thesis using round_even_range(2)[of x] round_even_range(1)[of y] by linarith
next
  case False
  with floor_mono[OF assms] have f: "\<lfloor>y\<rfloor> = \<lfloor>x\<rfloor>" by simp
  have "x - of_int \<lfloor>x\<rfloor> \<le> y - of_int \<lfloor>x\<rfloor>" using assms by simp
  then show ?thesis by (auto simp: round_even_def Let_def f)
qed

lemma round_even_uminus: "round_even (- x) = - round_even x"
proof (cases "x = of_int \<lfloor>x\<rfloor>")
  case True
  then obtain k where "x = of_int k" ..
  then have "round_even x = k" "round_even (- x) = - k"
    using round_even_of_int[of k] round_even_of_int[of "- k"] by simp_all
  then show ?thesis by simp
next
  case False
  then have "x \<notin> \<int>" by (metis Ints_cases of_int_floor_cancel)
  then have c: "\<lceil>x\<rceil> = \<lfloor>x\<rfloor> + 1" by (simp add: ceiling_altdef False)
  have f: "\<lfloor>- x\<rfloor> = - \<lfloor>x\<rfloor> - 1" unfolding floor_minus c by simp
  have r: "0 < x - of_int \<lfloor>x\<rfloor>" using False by (simp add: less_le)
  show ?thesis
    unfolding round_even_def Let_def f using r by (auto simp: field_simps)
qed


lemma ilog2_uminus: "ilog2 (- x) = ilog2 x"
  by (simp add: ilog2_def)

lemma ulp_exp_uminus: "ulp_exp (- x) = ulp_exp x"
  by (simp add: ulp_exp_def ilog2_uminus)

lemma round_dbl_uminus: "round_dbl (- x) = - round_dbl x"
  by (simp add: round_dbl_def ulp_exp_uminus round_even_uminus)

lemma round_dbl_nonneg:
  assumes "0 \<le> x"
  shows "0 \<le> round_dbl x"
proof (cases "x = 0")
  case True
  then show ?thesis by (simp add: round_dbl_def)
next
  case False
  have "0 \<le> x / 2 powi ulp_exp x" using assms by simp
  from round_even_mono[OF this] have "0 \<le> round_even (x / 2 powi ulp_exp x)"
    using round_even_of_int[of 0] by simp
  then show ?thesis using False by (simp add: round_dbl_def)
qed

lemma ilog2_mono:
  assumes "0 < x" and "x \<le> y"
  shows "ilog2 x \<le> ilog2 y"
proof -
  have x: "x \<noteq> 0" and y: "y \<noteq> 0" using assms by simp_all
  have "2 powi ilog2 x \<le> \<bar>x\<bar>" using ilog2_bounds(1)[OF x] .
  also have "\<dots> \<le> \<bar>y\<bar>" using assms by simp
  also have "\<dots> < 2 powi (ilog2 y + 1)" using ilog2_bounds(2)[OF y] .
  finally have "ilog2 x < ilog2 y + 1" by (simp only: powi2_less_iff)
  then show ?thesis by simp
qed

lemma powi2_int:
  assumes "b \<le> a"
  shows "(2::rat) powi a / 2 powi b = of_int (2 ^ nat (a - b))"
proof -
  have "(2::rat) powi a / 2 powi b = 2 powi (a - b)" by (simp add: power_int_diff)
  also have "\<dots> = 2 ^ nat (a - b)" using assms by (simp add: power_int_nonneg_exp)
  finally show ?thesis by simp
qed

lemma powi2_int_mult:
  assumes "b \<le> a"
  shows "of_int (2 ^ nat (a - b)) * (2::rat) powi b = 2 powi a"
proof -
  have "of_int (2 ^ nat (a - b)) * (2::rat) powi b = (2 powi a / 2 powi b) * 2 powi b"
    by (simp only: powi2_int[OF assms])
  then show ?thesis by simp
qed

lemma scale_mono:
  fixes m n :: int
  assumes "m \<le> n"
  shows "(of_int m :: rat) * 2 powi q \<le> of_int n * 2 powi q"
  using assms by (simp add: mult_right_mono)

lemma round_dbl_le_powi:
  assumes "0 < x" and "x \<le> 2 powi b" and "ulp_exp x \<le> b"
  shows "round_dbl x \<le> 2 powi b"
proof -
  let ?q = "ulp_exp x"
  have p: "(0::rat) < 2 powi ?q" by simp
  have "x / 2 powi ?q \<le> 2 powi b / 2 powi ?q" using assms(2) p by (simp add: divide_right_mono)
  from round_even_mono[OF this]
  have "round_even (x / 2 powi ?q) \<le> 2 ^ nat (b - ?q)"
    unfolding powi2_int[OF assms(3)] round_even_of_int .
  from scale_mono[OF this, of ?q] show ?thesis
    unfolding powi2_int_mult[OF assms(3)] using assms(1) by (simp add: round_dbl_def)
qed

lemma round_dbl_ge_powi:
  assumes "0 < x" and "2 powi b \<le> x" and "ulp_exp x \<le> b"
  shows "2 powi b \<le> round_dbl x"
proof -
  let ?q = "ulp_exp x"
  have p: "(0::rat) < 2 powi ?q" by simp
  have "2 powi b / 2 powi ?q \<le> x / 2 powi ?q" using assms(2) p by (simp add: divide_right_mono)
  from round_even_mono[OF this]
  have "2 ^ nat (b - ?q) \<le> round_even (x / 2 powi ?q)"
    unfolding powi2_int[OF assms(3)] round_even_of_int .
  from scale_mono[OF this, of ?q] show ?thesis
    unfolding powi2_int_mult[OF assms(3)] using assms(1) by (simp add: round_dbl_def)
qed

lemma round_dbl_pos_mono:
  assumes "0 < x" and "x \<le> y"
  shows "round_dbl x \<le> round_dbl y"
proof -
  have y: "0 < y" using assms by simp
  have e: "ilog2 x \<le> ilog2 y" using ilog2_mono[OF assms] .
  then have q: "ulp_exp x \<le> ulp_exp y" by (simp add: ulp_exp_def)
  show ?thesis
  proof (cases "ulp_exp x = ulp_exp y")
    case True
    have p: "(0::rat) < 2 powi ulp_exp y" by simp
    have "x / 2 powi ulp_exp y \<le> y / 2 powi ulp_exp y" using assms(2) p by (simp add: divide_right_mono)
    from scale_mono[OF round_even_mono[OF this], of "ulp_exp y"]
    show ?thesis using assms(1) y by (simp add: round_dbl_def True)
  next
    case False
    with q have ql: "ulp_exp x < ulp_exp y" by simp
    then have qy: "ulp_exp y = ilog2 y - 52" and el: "ilog2 x < ilog2 y"
      by (auto simp: ulp_exp_def max_def split: if_splits)
    have xb: "x \<le> 2 powi ilog2 y"
    proof -
      have "x < 2 powi (ilog2 x + 1)" using ilog2_bounds(2)[of x] assms(1) by simp
      also have "\<dots> \<le> 2 powi ilog2 y" using el by (simp only: powi2_le_iff)
      finally show ?thesis by simp
    qed
    have yb: "2 powi ilog2 y \<le> y" using ilog2_bounds(1)[of y] y by simp
    have "round_dbl x \<le> 2 powi ilog2 y"
      using round_dbl_le_powi[OF assms(1) xb] ql qy by simp
    also have "\<dots> \<le> round_dbl y"
      using round_dbl_ge_powi[OF y yb] qy by simp
    finally show ?thesis .
  qed
qed

lemma round_dbl_mono:
  assumes "x \<le> y"
  shows "round_dbl x \<le> round_dbl y"
proof -
  consider (pos) "0 < x" | (neg) "y < 0" | (mid) "x \<le> 0" "0 \<le> y" by linarith
  then show ?thesis
  proof cases
    case pos
    then show ?thesis using round_dbl_pos_mono[OF pos assms] by simp
  next
    case neg
    then have "0 < - y" "- y \<le> - x" using assms by simp_all
    from round_dbl_pos_mono[OF this] show ?thesis by (simp add: round_dbl_uminus)
  next
    case mid
    have "0 \<le> round_dbl (- x)" using mid(1) by (intro round_dbl_nonneg) simp
    then have "round_dbl x \<le> 0" by (simp add: round_dbl_uminus)
    also have "0 \<le> round_dbl y" using mid(2) by (rule round_dbl_nonneg)
    finally show ?thesis .
  qed
qed


lemma round_dbl_of_grid:
  assumes "x = of_int m * 2 powi q" and "ulp_exp x \<le> q"
  shows "round_dbl x = x"
proof (cases "x = 0")
  case True
  then show ?thesis by (simp add: round_dbl_def)
next
  case False
  let ?u = "ulp_exp x"
  have "x / 2 powi ?u = of_int m * (2 powi q / 2 powi ?u)" by (simp add: assms(1))
  also have "\<dots> = of_int (m * 2 ^ nat (q - ?u))" by (simp add: powi2_int[OF assms(2)])
  finally have "round_even (x / 2 powi ?u) = m * 2 ^ nat (q - ?u)"
    by (simp only: round_even_of_int)
  then have "round_dbl x = of_int m * (of_int (2 ^ nat (q - ?u)) * 2 powi ?u)"
    using False by (simp add: round_dbl_def)
  also have "of_int (2 ^ nat (q - ?u)) * (2::rat) powi ?u = 2 powi q"
    by (rule powi2_int_mult[OF assms(2)])
  also have "of_int m * 2 powi q = x" by (rule assms(1)[symmetric])
  finally show ?thesis .
qed

lemma mantissa_bound:
  assumes "x \<noteq> 0"
  shows "\<bar>round_even (x / 2 powi ulp_exp x)\<bar> \<le> 2 ^ 53"
proof -
  let ?q = "ulp_exp x"
  have q: "ilog2 x + 1 \<le> ?q + 53" by (simp add: ulp_exp_def)
  have "\<bar>x\<bar> < 2 powi (ilog2 x + 1)" using ilog2_bounds(2)[OF assms] .
  also have "\<dots> \<le> 2 powi (?q + 53)" using q by (simp only: powi2_le_iff)
  also have "\<dots> = 2 ^ 53 * 2 powi ?q" by (simp add: power_int_add)
  finally have "\<bar>x\<bar> / 2 powi ?q \<le> 2 ^ 53" by (simp add: pos_divide_le_eq)
  moreover have "\<bar>x / 2 powi ?q\<bar> = \<bar>x\<bar> / 2 powi ?q" by (simp add: abs_divide)
  ultimately have "\<bar>x / 2 powi ?q\<bar> \<le> 2 ^ 53" by simp
  then have "x / 2 powi ?q \<le> 2 ^ 53" and "- (2 ^ 53) \<le> x / 2 powi ?q"
    by linarith+
  then have "x / 2 powi ?q \<le> of_int (2 ^ 53)" and "of_int (- (2 ^ 53)) \<le> x / 2 powi ?q"
    by simp_all
  from round_even_mono[OF this(1)] round_even_mono[OF this(2)] show ?thesis
    unfolding round_even_of_int by simp
qed

lemma round_dbl_idem: "round_dbl (round_dbl x) = round_dbl x"
proof (cases "x = 0")
  case True
  then show ?thesis by (simp add: round_dbl_def)
next
  case False
  define q where "q = ulp_exp x"
  define m where "m = round_even (x / 2 powi q)"
  define y where "y = round_dbl x"
  have y: "y = of_int m * 2 powi q" using False by (simp add: y_def m_def q_def round_dbl_def)
  have mb: "\<bar>m\<bar> \<le> 2 ^ 53" using mantissa_bound[OF False] by (simp add: m_def q_def)
  have ql: "- 1074 \<le> q" by (simp add: q_def ulp_exp_def)
  have ay: "\<bar>y\<bar> = of_int \<bar>m\<bar> * 2 powi q" by (simp add: y abs_mult)
  show ?thesis
  proof (cases "y = 0")
    case True
    then show ?thesis unfolding y_def[symmetric] by (simp add: round_dbl_def)
  next
    case nz: False
    show ?thesis
    proof (cases "\<bar>m\<bar> = 2 ^ 53")
      case True
      then have "\<bar>y\<bar> = 2 powi (q + 53)" by (simp add: ay power_int_add)
      then have "ilog2 y = q + 53" by (intro ilog2_unique) (simp_all add: powi2_less_iff)
      then have u: "ulp_exp y \<le> q + 53" using ql by (simp add: ulp_exp_def)
      from True have "m = 2 ^ 53 \<or> m = - (2 ^ 53)" by linarith
      then have "y = of_int 1 * 2 powi (q + 53) \<or> y = of_int (- 1) * 2 powi (q + 53)"
        by (auto simp: y power_int_add)
      then show ?thesis unfolding y_def[symmetric] using round_dbl_of_grid[OF _ u] by blast
    next
      case False
      with mb have "\<bar>m\<bar> < 2 ^ 53" by simp
      then have "(of_int \<bar>m\<bar> :: rat) < of_int (2 ^ 53)" by (simp only: of_int_less_iff)
      then have "\<bar>y\<bar> < 2 ^ 53 * 2 powi q" by (simp add: ay)
      also have "\<dots> = 2 powi (q + 53)" by (simp add: power_int_add)
      finally have "2 powi ilog2 y < (2::rat) powi (q + 53)"
        using ilog2_bounds(1)[OF nz] by linarith
      then have "ilog2 y < q + 53" by (simp only: powi2_less_iff)
      then have u: "ulp_exp y \<le> q" using ql by (simp add: ulp_exp_def)
      show ?thesis unfolding y_def[symmetric] using round_dbl_of_grid[OF y u] .
    qed
  qed
qed

lemma fl_cases:
  "fl x = (if 2 powi 1024 \<le> round_dbl x then PInf
           else if round_dbl x \<le> - (2 powi 1024) then NInf else Num (round_dbl x))"
proof (cases "round_dbl x = 0")
  case True
  then show ?thesis by (simp add: fl_def)
next
  case False
  have "ilog2 (round_dbl x) < 1024 \<longleftrightarrow> \<bar>round_dbl x\<bar> < 2 powi 1024"
  proof
    assume "ilog2 (round_dbl x) < 1024"
    then have "ilog2 (round_dbl x) + 1 \<le> 1024" by simp
    then have "(2::rat) powi (ilog2 (round_dbl x) + 1) \<le> 2 powi 1024" by (simp only: powi2_le_iff)
    then show "\<bar>round_dbl x\<bar> < 2 powi 1024" using ilog2_bounds(2)[OF False] by linarith
  next
    assume "\<bar>round_dbl x\<bar> < 2 powi 1024"
    then have "(2::rat) powi ilog2 (round_dbl x) < 2 powi 1024"
      using ilog2_bounds(1)[OF False] by linarith
    then show "ilog2 (round_dbl x) < 1024" by (simp only: powi2_less_iff)
  qed
  then show ?thesis using False by (auto simp: fl_def Let_def)
qed

lemma fl_idem:
  assumes "fl x = Num y"
  shows "fl y = Num y"
proof -
  from assms have y: "y = round_dbl x" and b: "\<not> 2 powi 1024 \<le> round_dbl x" "\<not> round_dbl x \<le> - (2 powi 1024)"
    by (auto simp: fl_cases split: if_splits)
  have "round_dbl y = y" unfolding y by (rule round_dbl_idem)
  then show ?thesis using b by (simp add: fl_cases y)
qed

section \<open>Numbers, their order and the clamp\<close>

lemma round_dbl_zero: "round_dbl 0 = 0"
  by (simp add: round_dbl_def)

lemma fl_zero: "fl 0 = Num 0"
  by (simp add: fl_def round_dbl_zero)

lemma fl_isNum: "isNum (fl x)"
  by (simp add: fl_cases)

lemma fl_isDouble: "isDouble (fl x)"
proof (cases "fl x")
  case (Num y)
  then show ?thesis using fl_idem[OF Num] by simp
qed (use fl_isNum[of x] in simp_all)

lemma fl_uminus: "fl (- x) = neg_num (fl x)"
  by (auto simp: fl_cases round_dbl_uminus)

lemma fl_mono:
  assumes "x \<le> y"
  shows "le_num (fl x) (fl y)"
  using round_dbl_mono[OF assms] by (auto simp: fl_cases)

lemma fl_Num_round: "fl x = Num y \<Longrightarrow> round_dbl x = y"
  by (auto simp: fl_cases split: if_splits)

lemma fl_bounded:
  assumes "fl b = Num b" and "- b \<le> x" and "x \<le> b"
  shows "\<exists>y. fl x = Num y \<and> - b \<le> y \<and> y \<le> b"
proof -
  have rb: "round_dbl b = b" using fl_Num_round[OF assms(1)] .
  have lim: "\<not> 2 powi 1024 \<le> b" "\<not> b \<le> - (2 powi 1024)"
    using assms(1) by (auto simp: fl_cases rb split: if_splits)
  have u: "round_dbl x \<le> b" using round_dbl_mono[OF assms(3)] by (simp add: rb)
  have l: "- b \<le> round_dbl x" using round_dbl_mono[OF assms(2)] by (simp add: rb round_dbl_uminus)
  have "fl x = Num (round_dbl x)" using u l lim by (auto simp: fl_cases)
  then show ?thesis using u l by blast
qed

lemma le_num_refl: "isNum a \<Longrightarrow> le_num a a"
  by (cases a) simp_all

lemma le_num_trans: "le_num a b \<Longrightarrow> le_num b c \<Longrightarrow> le_num a c"
  by (cases a; cases b; cases c) simp_all

lemma le_num_total: "isNum a \<Longrightarrow> isNum b \<Longrightarrow> le_num a b \<or> le_num b a"
  by (cases a; cases b) auto

lemma le_num_isNum: "le_num a b \<Longrightarrow> isNum a \<and> isNum b"
  by (cases a; cases b) simp_all

lemma lt_num_iff: "isNum a \<Longrightarrow> isNum b \<Longrightarrow> lt_num a b \<longleftrightarrow> \<not> le_num b a"
  by (cases a; cases b) auto

lemma toNumber_isNum: "isNum a \<Longrightarrow> toNumber a = a"
  by (cases a) simp_all

lemma isNum_not_NaN: "isNum a \<Longrightarrow> a \<noteq> NaN"
  by (cases a) simp_all

lemma Math_max_isNum:
  assumes "isNum a" and "isNum b"
  shows "isNum (Math_max a b)" and "le_num a (Math_max a b)" and "le_num b (Math_max a b)"
  using assms le_num_total[OF assms] le_num_refl
  by (auto simp: Math_max_def Let_def toNumber_isNum isNum_not_NaN)

lemma clamp_isNum:
  assumes "isNum n" and "isNum lo" and "isNum hi"
  shows "isNum (clamp n lo hi)"
    and "le_num (clamp n lo hi) hi"
    and "le_num lo hi \<Longrightarrow> le_num lo (clamp n lo hi)"
    and "\<not> le_num lo hi \<Longrightarrow> clamp n lo hi = hi"
proof -
  let ?m = "Math_max n lo"
  note m = Math_max_isNum[OF assms(1,2)]
  have c: "clamp n lo hi = (if le_num ?m hi then ?m else hi)"
    using m(1) assms(3) by (simp add: clamp_def Math_min_def Let_def toNumber_isNum isNum_not_NaN)
  show "isNum (clamp n lo hi)" using m(1) assms(3) by (simp add: c)
  show "le_num (clamp n lo hi) hi" using assms(3) by (simp add: c le_num_refl)
  show "le_num lo (clamp n lo hi)" if "le_num lo hi" using that m(3) by (simp add: c)
  show "clamp n lo hi = hi" if "\<not> le_num lo hi"
    using that le_num_trans[OF m(3)] by (auto simp: c)
qed

lemma mul_num_isNum: "b \<noteq> 0 \<Longrightarrow> isNum s \<Longrightarrow> isNum (mul_num (Num b) s)"
  by (cases s) (simp_all add: fl_isNum)

lemma add_num_isNum: "isNum s \<Longrightarrow> isNum (add_num (Num b) s)"
  by (cases s) (simp_all add: fl_isNum)

section \<open>Own properties and inherited ones\<close>

lemma map_of_insertIndexed:
  "map_of ps k = None \<Longrightarrow> map_of (insertIndexed i k v ps) = (map_of ps)(k \<mapsto> v)"
proof (induction ps)
  case Nil
  show ?case by simp
next
  case (Cons p ps)
  obtain k' v' where p: "p = (k', v')" by (cases p)
  from Cons.prems have ne: "k' \<noteq> k" and rest: "map_of ps k = None"
    by (auto simp: p split: if_splits)
  show ?case
    using Cons.IH[OF rest] ne by (auto simp: p fun_eq_iff split: option.splits)
qed

lemma map_of_setOwn: "map_of (setOwn k v obj) = (map_of obj)(k \<mapsto> v)"
proof (cases "map_of obj k")
  case None
  then show ?thesis
    by (auto simp: setOwn_def map_of_insertIndexed fun_eq_iff map_add_def split: option.splits)
next
  case (Some a)
  then show ?thesis by (simp add: setOwn_def update_conv')
qed

lemma lookupHolding_own: "map_of hs k = Some pos \<Longrightarrow> lookupHolding hs proto k = HPos pos"
  by (simp add: lookupHolding_def)

lemma lookupHolding_absent:
  "map_of hs k = None \<Longrightarrow> k \<notin> set protoKeys \<Longrightarrow> lookupHolding hs None k = HVal Undefined"
  by (simp add: lookupHolding_def inherited_def)

lemma assignHolding_own:
  "map_of hs k \<noteq> None \<or> k \<notin> set protoKeys \<Longrightarrow> assignHolding k pos hs = (setOwn k pos hs, None)"
  by (auto simp: assignHolding_def protoKeys_def)

lemma doTrade_priced:
  assumes "nullish (lookupPrice (priceMapFrom (watchlist s)) symbol) (Num 0) = price" and "truthy price"
  shows "doTrade env symbol qty side s = tradeReducer env side symbol (tradeQty qty) price s"
  using assms by (simp add: doTrade_def)

section \<open>The quantity of a trade\<close>

text \<open>
  C8. The specification says that every quantity text gives an integer quantity of at least \<open>1\<close>.
  The code misses the text without a leading digit: for \<open>"."\<close>, \<^verbatim>\<open>parseInt\<close> is \<open>NaN\<close>,
  \<^verbatim>\<open>Math.floor\<close> and \<^verbatim>\<open>Math.max(1, _)\<close> keep it, the test \<^verbatim>\<open>cost > cash\<close> is false, and the
  trade is executed and recorded with the quantity \<open>NaN\<close>.
\<close>

theorem C8_nan_quantity_traded:
  "tradeQty ''.'' = NaN
   \<and> doTrade env0 ''AAPL'' ''.'' BUY (initialState (\<lambda>i. 1 / 2)) =
       ([], (initialState (\<lambda>i. 1 / 2))
              \<lparr>holdings := [(''AAPL'', \<lparr>h_qty = NaN, h_avg = Num 200\<rparr>)],
               cash := NaN,
               history := [\<lparr>t_id = String (Num (6800000000001 / 4)), t_time = Num 1700000000001,
                            t_side = BUY, t_symbol = ''AAPL'', t_qty = NaN, t_price = Num 200\<rparr>]\<rparr>)"
  by code_simp

section \<open>Buying and selling\<close>






text \<open>
  A sell of a symbol that has no own position and is not a name inherited from
  \<^verbatim>\<open>Object.prototype\<close>, or whose position holds less than \<open>q\<close>, is rejected.
\<close>

lemma sell_rejected:
  assumes "map_of (holdings prev) symbol = None \<and> symbol \<notin> set protoKeys
           \<or> (\<exists>h. map_of (holdings prev) symbol = Some h \<and> jlt (h_qty h) q)"
  shows "tradeReducer env SELL symbol q price prev = ([''Not enough shares''], prev)"
  using assms by (auto simp: tradeReducer_def lookupHolding_own lookupHolding_absent)

text \<open>
  C3. The specification says that a sell of a symbol without a position is rejected and
  leaves the state unchanged. The code misses the names every object inherits: for the
  symbol \<^verbatim>\<open>constructor\<close>, \<^verbatim>\<open>priceMap[symbol]\<close> and \<^verbatim>\<open>holdings[symbol]\<close> are the inherited function,
  which is truthy; \<^verbatim>\<open>h.qty\<close> is \<^verbatim>\<open>undefined\<close> and \<^verbatim>\<open>undefined < q\<close> is false, so the guard does
  not fire: the sell is executed without a report, a SELL record is added, a position of
  quantity \<open>NaN\<close> is stored and the cash becomes \<open>NaN\<close>.
\<close>

theorem C3_sell_inherited_name:
  "lookupHolding (holdings (initialState (\<lambda>i. 1 / 2))) None ''constructor'' = HVal (Builtin ''constructor'')
   \<and> doTrade env0 ''constructor'' ''1'' SELL (initialState (\<lambda>i. 1 / 2)) =
       ([], (initialState (\<lambda>i. 1 / 2))
              \<lparr>holdings := [(''constructor'', \<lparr>h_qty = NaN, h_avg = Undefined\<rparr>)],
               cash := NaN,
               history := [\<lparr>t_id = String (Num (6800000000001 / 4)), t_time = Num 1700000000001,
                            t_side = SELL, t_symbol = ''constructor'', t_qty = Num 1,
                            t_price = Builtin ''constructor''\<rparr>]\<rparr>)"
  by code_simp

text \<open>
  C4, as stated, fails: the credit is the result of double arithmetic. Selling 3 at the
  double \<open>100.1\<close> with the cash 0 leaves the cash \<open>300.29999999999995\<close>, which is not
  \<open>3 * 100.1\<close>.
\<close>

theorem C4_credit_is_rounded:
  "cash (snd (tradeReducer env0 SELL ''AAPL'' (Num 3) (Num (3521955646092083 / 35184372088832)) (held 0 3 100)))
     = Num (1320733367284531 / 4398046511104)
   \<and> (1320733367284531 / 4398046511104 :: rat) \<noteq> 0 + 3 * (3521955646092083 / 35184372088832)"
  by code_simp

text \<open>
  C4, amended. A sell of \<open>q\<close> from an own position \<open>h\<close> with \<open>h.qty < q\<close> false: when
  \<open>h.qty - q\<close> is \<open>0\<close> the position is deleted from the holdings, otherwise its quantity
  becomes \<open>h.qty - q\<close> and its average cost stays; the cash becomes \<open>cash + q * price\<close>, a SELL
  record is put in front of the history, nothing is reported and nothing else changes.
  Every operation is the double operation: the exact result rounded to the nearest double.
\<close>

theorem C4_sell_success:
  assumes "map_of (holdings prev) symbol = Some h" and "\<not> jlt (h_qty h) q"
  shows "tradeReducer env SELL symbol q price prev =
           ([], prev\<lparr>holdings :=
                       (if strict_eq (jsub (h_qty h) q) (Num 0) then AList.delete symbol (holdings prev)
                        else setOwn symbol \<lparr>h_qty = jsub (h_qty h) q, h_avg = h_avg h\<rparr> (holdings prev)),
                     holdingsProto := None,
                     cash := jadd (cash prev) (jmul q price),
                     history := \<lparr>t_id = String (jadd (Num (now_id env)) (Num (rnd env))),
                                 t_time = Num (now_time env),
                                 t_side = SELL, t_symbol = symbol, t_qty = q, t_price = price\<rparr>
                                # history prev\<rparr>)
         \<and> map_of (holdings (snd (tradeReducer env SELL symbol q price prev))) =
             (map_of (holdings prev))
               (symbol := if strict_eq (jsub (h_qty h) q) (Num 0) then None
                          else Some \<lparr>h_qty = jsub (h_qty h) q, h_avg = h_avg h\<rparr>)"
proof -
  have a: "assignHolding symbol pos (holdings prev) = (setOwn symbol pos (holdings prev), None)"
    for pos using assms(1) by (intro assignHolding_own) simp
  have "tradeReducer env SELL symbol q price prev =
           ([], prev\<lparr>holdings :=
                       (if strict_eq (jsub (h_qty h) q) (Num 0) then AList.delete symbol (holdings prev)
                        else setOwn symbol \<lparr>h_qty = jsub (h_qty h) q, h_avg = h_avg h\<rparr> (holdings prev)),
                     holdingsProto := None,
                     cash := jadd (cash prev) (jmul q price),
                     history := \<lparr>t_id = String (jadd (Num (now_id env)) (Num (rnd env))),
                                 t_time = Num (now_time env),
                                 t_side = SELL, t_symbol = symbol, t_qty = q, t_price = price\<rparr>
                                # history prev\<rparr>)"
    using assms by (simp add: tradeReducer_def newRecord_def Let_def a lookupHolding_own)
  then show ?thesis by (simp add: map_of_setOwn delete_conv')
qed

theorem C4_sell_success_witness:
  "\<not> jlt (Num 15) (Num 8)
   \<and> tradeReducer env0 SELL ''AAPL'' (Num 8) (Num 170) (held 7700 15 150) =
       ([], (held 7700 15 150)
              \<lparr>holdings := [(''AAPL'', \<lparr>h_qty = Num 7, h_avg = Num 150\<rparr>)],
               cash := Num 9060,
               history := [\<lparr>t_id = String (Num (6800000000001 / 4)), t_time = Num 1700000000001,
                            t_side = SELL, t_symbol = ''AAPL'', t_qty = Num 8, t_price = Num 170\<rparr>]\<rparr>)
   \<and> tradeReducer env0 SELL ''AAPL'' (Num 15) (Num 170) (held 7700 15 150) =
       ([], (held 7700 15 150)
              \<lparr>holdings := [],
               cash := Num 10250,
               history := [\<lparr>t_id = String (Num (6800000000001 / 4)), t_time = Num 1700000000001,
                            t_side = SELL, t_symbol = ''AAPL'', t_qty = Num 15, t_price = Num 170\<rparr>]\<rparr>)"
proof -
  have a: "map_of (holdings (held 7700 15 150)) ''AAPL'' = Some \<lparr>h_qty = Num 15, h_avg = Num 150\<rparr>"
    by (simp add: held_def)
  have l8: "\<not> jlt (h_qty \<lparr>h_qty = Num 15, h_avg = Num 150\<rparr>) (Num 8)"
    and l15: "\<not> jlt (h_qty \<lparr>h_qty = Num 15, h_avg = Num 150\<rparr>) (Num 15)" by code_simp+
  have v: "jsub (Num 15) (Num 8) = Num 7" "jsub (Num 15) (Num 15) = Num 0"
    "jadd (Num 7700) (jmul (Num 8) (Num 170)) = Num 9060"
    "jadd (Num 7700) (jmul (Num 15) (Num 170)) = Num 10250"
    "jadd (Num 1700000000000) (Num (1 / 4)) = Num (6800000000001 / 4)"
    by code_simp+
  have s: "setOwn ''AAPL'' pos [(''AAPL'', old)] = [(''AAPL'', pos)]" for pos old :: Position
    by (simp add: setOwn_def)
  from C4_sell_success[OF a l8, of env0 "Num 170"]
  have r8: "tradeReducer env0 SELL ''AAPL'' (Num 8) (Num 170) (held 7700 15 150) =
       ([], (held 7700 15 150)
              \<lparr>holdings := [(''AAPL'', \<lparr>h_qty = Num 7, h_avg = Num 150\<rparr>)],
               cash := Num 9060,
               history := [\<lparr>t_id = String (Num (6800000000001 / 4)), t_time = Num 1700000000001,
                            t_side = SELL, t_symbol = ''AAPL'', t_qty = Num 8, t_price = Num 170\<rparr>]\<rparr>)"
    by (simp add: v s held_def env0_def)
  from C4_sell_success[OF a l15, of env0 "Num 170"]
  have r15: "tradeReducer env0 SELL ''AAPL'' (Num 15) (Num 170) (held 7700 15 150) =
       ([], (held 7700 15 150)
              \<lparr>holdings := [],
               cash := Num 10250,
               history := [\<lparr>t_id = String (Num (6800000000001 / 4)), t_time = Num 1700000000001,
                            t_side = SELL, t_symbol = ''AAPL'', t_qty = Num 15, t_price = Num 170\<rparr>]\<rparr>)"
    by (simp add: v s held_def env0_def)
  from l8 have "\<not> jlt (Num 15) (Num 8)" by simp
  with r8 r15 show ?thesis by simp
qed

section \<open>Trade ids\<close>

text \<open>
  C9, as stated, fails: the id is \<^verbatim>\<open>String(Date.now() + Math.random())\<close>, so two trades that
  read the same clock value and draw the same random number get the same id, and the ids
  of the history are not distinct.
\<close>

theorem C9_same_draw_same_id:
  "map t_id (history (run (\<lambda>i. 1 / 2) [Trade env0 ''AAPL'' ''1'' BUY, Trade env0 ''MSFT'' ''2'' BUY]))
     = [String (Num (6800000000001 / 4)), String (Num (6800000000001 / 4))]
   \<and> \<not> distinct (map t_id (history (run (\<lambda>i. 1 / 2) [Trade env0 ''AAPL'' ''1'' BUY, Trade env0 ''MSFT'' ''2'' BUY])))"
  by code_simp

text \<open>
  C9, amended. Every executed trade puts one record in front of the history, whose id is
  the string of the double sum of the clock reading and the random draw. The ids of two
  records are equal exactly when these rounded sums are equal: two trades of one
  millisecond get the same id as soon as their draws round to the same sum.
\<close>

theorem C9_id_is_rounded_sum:
  assumes "tradeReducer envA sideA symbA qA priceA prevA = ([], sA)"
    and "tradeReducer envB sideB symbB qB priceB prevB = ([], sB)"
  shows "(\<exists>rA. history sA = rA # history prevA
               \<and> t_id rA = String (jadd (Num (now_id envA)) (Num (rnd envA))))
       \<and> (\<exists>rB. history sB = rB # history prevB
               \<and> t_id rB = String (jadd (Num (now_id envB)) (Num (rnd envB))))
       \<and> (t_id (hd (history sA)) = t_id (hd (history sB))
            \<longleftrightarrow> jadd (Num (now_id envA)) (Num (rnd envA)) = jadd (Num (now_id envB)) (Num (rnd envB)))"
proof -
  have h: "history s' = newRecord env side symb q price # history prev"
    if "tradeReducer env side symb q price prev = ([], s')" for env side symb q price prev s'
    using that by (auto simp: tradeReducer_def Let_def split: Side.splits if_splits)
  have i: "t_id (newRecord env side symb q price) = String (jadd (Num (now_id env)) (Num (rnd env)))"
    for env side symb q price
    by (simp add: newRecord_def)
  show ?thesis using h[OF assms(1)] h[OF assms(2)] i by simp
qed

theorem C9_id_is_rounded_sum_witness:
  "t_id (hd (history (snd (tradeReducer env0 BUY ''AAPL'' (Num 1) (Num 200) (initialState (\<lambda>i. 1 / 2))))))
     = t_id (hd (history (snd (tradeReducer (env0\<lparr>rnd := 1 / 4 + 1 / 16384\<rparr>) SELL ''AAPL'' (Num 8) (Num 170)
                                 (held 7700 15 150)))))
   \<and> t_id (hd (history (snd (tradeReducer env0 BUY ''AAPL'' (Num 1) (Num 200) (initialState (\<lambda>i. 1 / 2))))))
     \<noteq> t_id (hd (history (snd (tradeReducer (env0\<lparr>rnd := 1 / 2\<rparr>) SELL ''AAPL'' (Num 8) (Num 170)
                                 (held 7700 15 150)))))"
proof -
  let ?A = "tradeReducer env0 BUY ''AAPL'' (Num 1) (Num 200) (initialState (\<lambda>i. 1 / 2))"
  let ?B = "tradeReducer (env0\<lparr>rnd := 1 / 4 + 1 / 16384\<rparr>) SELL ''AAPL'' (Num 8) (Num 170) (held 7700 15 150)"
  let ?C = "tradeReducer (env0\<lparr>rnd := 1 / 2\<rparr>) SELL ''AAPL'' (Num 8) (Num 170) (held 7700 15 150)"
  have a: "?A = ([], snd ?A)" by code_simp
  have b: "?B = ([], snd ?B)" by code_simp
  have c: "?C = ([], snd ?C)" by code_simp
  have e: "jadd (Num (now_id env0)) (Num (rnd env0))
           = jadd (Num (now_id (env0\<lparr>rnd := 1 / 4 + 1 / 16384\<rparr>))) (Num (rnd (env0\<lparr>rnd := 1 / 4 + 1 / 16384\<rparr>)))"
    by code_simp
  have n: "jadd (Num (now_id env0)) (Num (rnd env0))
           \<noteq> jadd (Num (now_id (env0\<lparr>rnd := 1 / 2\<rparr>))) (Num (rnd (env0\<lparr>rnd := 1 / 2\<rparr>)))"
    by code_simp
  show ?thesis
    using C9_id_is_rounded_sum[OF a b] C9_id_is_rounded_sum[OF a c] e n by blast
qed

section \<open>The price drift is clamped\<close>

lemma c85: "fl (85 / 100) = Num (7656119366529843 / 9007199254740992)" by code_simp
lemma c115: "fl (115 / 100) = Num (2589569785738035 / 2251799813685248)" by code_simp
lemma fl_one: "fl 1 = Num 1" by code_simp
lemma fl_two: "fl 2 = Num 2" by code_simp
lemma lo100: "fl (100 * (7656119366529843 / 9007199254740992)) = Num 85" by code_simp
lemma hi100: "fl (100 * (2589569785738035 / 2251799813685248)) = Num (8092405580431359 / 70368744177664)"
  by code_simp

lemma drift_np_isNum:
  fixes p r v :: rat
  assumes "p \<noteq> 0" and "0 \<le> r" and "r < 1"
  shows "isNum (jmul (Num p) (jadd (Num 1) (jmul (jsub (jmul (Num r) (Num 2)) (Num 1)) (Num v))))"
proof -
  have "- 2 \<le> r * 2" "r * 2 \<le> 2" using assms(2,3) by simp_all
  from fl_bounded[OF fl_two this] obtain t1 where t1: "fl (r * 2) = Num t1" "- 2 \<le> t1" "t1 \<le> 2"
    by blast
  have t1n: "0 \<le> t1"
  proof -
    have "le_num (fl 0) (fl (r * 2))" using assms(2) by (intro fl_mono) simp
    then show ?thesis by (simp add: fl_zero t1)
  qed
  have "- 1 \<le> t1 - 1" "t1 - 1 \<le> 1" using t1n t1(3) by simp_all
  from fl_bounded[OF fl_one this] obtain t2 where t2: "fl (t1 - 1) = Num t2" by blast
  have "jsub (jmul (Num r) (Num 2)) (Num 1) = Num t2"
    by (simp add: jsub_def jmul_def t1 t2)
  then show ?thesis
    using assms(1) by (simp add: jmul_def jadd_def mul_num_isNum add_num_isNum fl_isNum toNumber_isNum)
qed

lemma drift_change_bounds:
  fixes r v :: rat
  assumes "0 \<le> r" and "r < 1" and "0 \<le> v" and "fl v = Num v"
  shows "le_num (jmul (jsub (jmul (Num r) (Num 2)) (Num 1)) (Num v)) (Num v)"
    and "le_num (Num (- v)) (jmul (jsub (jmul (Num r) (Num 2)) (Num 1)) (Num v))"
proof -
  have "- 2 \<le> r * 2" "r * 2 \<le> 2" using assms(1,2) by simp_all
  from fl_bounded[OF fl_two this] obtain t1 where t1: "fl (r * 2) = Num t1" "- 2 \<le> t1" "t1 \<le> 2"
    by blast
  have t1n: "0 \<le> t1"
  proof -
    have "le_num (fl 0) (fl (r * 2))" using assms(1) by (intro fl_mono) simp
    then show ?thesis by (simp add: fl_zero t1)
  qed
  have "- 1 \<le> t1 - 1" "t1 - 1 \<le> 1" using t1n t1(3) by simp_all
  from fl_bounded[OF fl_one this] obtain t2 where t2: "fl (t1 - 1) = Num t2" "- 1 \<le> t2" "t2 \<le> 1"
    by blast
  have u: "jmul (jsub (jmul (Num r) (Num 2)) (Num 1)) (Num v) = fl (t2 * v)"
    by (simp add: jsub_def jmul_def t1 t2)
  have "t2 * v \<le> 1 * v" using t2(3) assms(3) by (rule mult_right_mono)
  then have "le_num (fl (t2 * v)) (fl v)" by (intro fl_mono) simp
  then show "le_num (jmul (jsub (jmul (Num r) (Num 2)) (Num 1)) (Num v)) (Num v)"
    by (simp add: u assms(4))
  have "(- 1) * v \<le> t2 * v" using t2(2) assms(3) by (rule mult_right_mono)
  then have "le_num (fl (- v)) (fl (t2 * v))" by (intro fl_mono) simp
  then show "le_num (Num (- v)) (jmul (jsub (jmul (Num r) (Num 2)) (Num 1)) (Num v))"
    by (simp add: u fl_uminus assms(4))
qed

text \<open>
  C6, as stated, fails: for the positive price \<open>1/2\<close> the upper bound \<open>p * 1.15\<close> is below
  the lower bound \<open>max(1, p * 0.85) = 1\<close>, \<^verbatim>\<open>clamp\<close> lets the upper bound win, and the new
  price, the double \<open>0.575\<close>, is below \<open>1\<close>.
\<close>

theorem C6_driftPrice_below_one:
  "driftPrice (1 / 2) (Num (1 / 2)) None = Num (2589569785738035 / 4503599627370496)
   \<and> jlt (driftPrice (1 / 2) (Num (1 / 2)) None) (Num 1)"
  by code_simp

text \<open>
  C6, amended. For every positive double \<open>p\<close>, every draw \<open>r\<close> in \<open>[0, 1)\<close> and every finite
  volatility \<open>v\<close> (the double \<open>0.015\<close> when omitted), \<^verbatim>\<open>driftPrice(p, v)\<close> is \<open>p * (1 + u)\<close> with
  \<open>u = (r * 2 - 1) * v\<close>, raised to at least \<open>max(1, p * 0.85)\<close> and then cut to at most
  \<open>p * 1.15\<close>, every operation being the double operation. The result is positive and lies
  between the doubles \<open>p * 0.85\<close> and \<open>p * 1.15\<close>. It is at least \<open>1\<close> exactly when
  \<open>p * 1.15 \<ge> 1\<close>, in particular for \<open>p \<ge> 1\<close>; otherwise it is \<open>p * 1.15\<close>, below \<open>1\<close>. For
  \<open>p = 100\<close> it lies in \<open>[85, 115]\<close>. For a double \<open>v \<ge> 0\<close>, \<open>u\<close> lies in \<open>[-v, v]\<close>.
\<close>

theorem C6_driftPrice_clamped:
  fixes p r v :: rat
  assumes "0 < p" and "fl p = Num p" and "0 \<le> r" and "r < 1"
    and "(case vopt of None \<Rightarrow> fl (15 / 1000) | Some v' \<Rightarrow> v') = Num v"
  shows "driftPrice r (Num p) vopt =
           Math_min
             (Math_max (jmul (Num p) (jadd (Num 1) (jmul (jsub (jmul (Num r) (Num 2)) (Num 1)) (Num v))))
                       (Math_max (Num 1) (jmul (Num p) (fl (85 / 100)))))
             (jmul (Num p) (fl (115 / 100)))
         \<and> jge (jmul (Num p) (fl (115 / 100))) (driftPrice r (Num p) vopt)
         \<and> jge (driftPrice r (Num p) vopt) (jmul (Num p) (fl (85 / 100)))
         \<and> jgt (driftPrice r (Num p) vopt) (Num 0)
         \<and> (if jge (jmul (Num p) (fl (115 / 100))) (Num 1)
            then jge (driftPrice r (Num p) vopt) (Math_max (Num 1) (jmul (Num p) (fl (85 / 100))))
               \<and> jge (driftPrice r (Num p) vopt) (Num 1)
            else driftPrice r (Num p) vopt = jmul (Num p) (fl (115 / 100))
               \<and> jlt (driftPrice r (Num p) vopt) (Num 1))
         \<and> (if 1 \<le> p then jge (driftPrice r (Num p) vopt) (Num 1) else True)
         \<and> (if p = 100
            then jge (driftPrice r (Num p) vopt) (Num 85) \<and> jge (Num 115) (driftPrice r (Num p) vopt)
            else True)
         \<and> (if 0 \<le> v \<and> fl v = Num v
            then jge (Num v) (jmul (jsub (jmul (Num r) (Num 2)) (Num 1)) (Num v))
               \<and> jge (jmul (jsub (jmul (Num r) (Num 2)) (Num 1)) (Num v)) (Num (- v))
            else True)"
proof -
  define np where "np = jmul (Num p) (jadd (Num 1) (jmul (jsub (jmul (Num r) (Num 2)) (Num 1)) (Num v)))"
  define lo' where "lo' = jmul (Num p) (fl (85 / 100))"
  define lo where "lo = Math_max (Num 1) lo'"
  define hi where "hi = jmul (Num p) (fl (115 / 100))"
  define D where "D = driftPrice r (Num p) vopt"
  have D: "D = clamp np lo hi"
    using assms(5) by (simp add: D_def driftPrice_def np_def lo_def lo'_def hi_def Let_def)
  have lo'_fl: "lo' = fl (p * (7656119366529843 / 9007199254740992))"
    unfolding lo'_def jmul_def c85 by simp
  have hi_fl: "hi = fl (p * (2589569785738035 / 2251799813685248))"
    unfolding hi_def jmul_def c115 by simp
  have n_np: "isNum np" unfolding np_def using assms(1,3,4) by (intro drift_np_isNum) simp_all
  have n_lo': "isNum lo'" by (simp add: lo'_fl fl_isNum)
  have n_hi: "isNum hi" by (simp add: hi_fl fl_isNum)
  note mx = Math_max_isNum[of "Num 1" lo', folded lo_def, OF _ n_lo']
  have n_lo: "isNum lo" and one_lo: "le_num (Num 1) lo" and lo'_lo: "le_num lo' lo"
    using mx by simp_all
  note cl = clamp_isNum[OF n_np n_lo n_hi, folded D]
  have lo'_hi: "le_num lo' hi"
    unfolding lo'_fl hi_fl using assms(1) by (intro fl_mono) simp
  have p_hi: "le_num (Num p) hi"
  proof -
    have "le_num (fl p) (fl (p * (2589569785738035 / 2251799813685248)))"
      using assms(1) by (intro fl_mono) simp
    then show ?thesis by (simp add: hi_fl assms(2))
  qed
  have lo_hi: "le_num lo hi" if "le_num (Num 1) hi"
    using that lo'_hi n_lo' by (simp add: lo_def Math_max_def Let_def toNumber_isNum isNum_not_NaN)
  have D_hi: "le_num D hi" using cl(2) .
  have D_cases: "le_num lo D \<or> D = hi" using cl(3,4) by blast
  have lo'_D: "le_num lo' D"
    using D_cases le_num_trans[OF lo'_lo] lo'_hi by auto
  have pos: "lt_num (Num 0) D"
  proof -
    from D_cases show ?thesis
    proof
      assume "le_num lo D"
      from le_num_trans[OF one_lo this] show ?thesis by (cases D) simp_all
    next
      assume "D = hi"
      with p_hi assms(1) show ?thesis by (cases hi) simp_all
    qed
  qed
  have big: "le_num lo D \<and> le_num (Num 1) D" if "le_num (Num 1) hi"
    using cl(3)[OF lo_hi[OF that]] le_num_trans[OF one_lo] by blast
  have small: "D = hi \<and> lt_num D (Num 1)" if "\<not> le_num (Num 1) hi"
  proof -
    have "\<not> le_num lo hi" using that le_num_trans[OF one_lo] by blast
    from cl(4)[OF this] have "D = hi" .
    moreover have "lt_num hi (Num 1)" using that n_hi by (simp add: lt_num_iff)
    ultimately show ?thesis by simp
  qed
  have ge1: "le_num (Num 1) D" if "1 \<le> p"
  proof -
    have "le_num (Num 1) (Num p)" using that by simp
    from big[OF le_num_trans[OF this p_hi]] show ?thesis by simp
  qed
  have hundred: "le_num (Num 85) D \<and> le_num D (Num 115)" if "p = 100"
  proof -
    have l: "lo' = Num 85" unfolding lo'_fl that lo100 ..
    have h: "hi = Num (8092405580431359 / 70368744177664)" unfolding hi_fl that hi100 ..
    have "le_num lo' D" using lo'_D .
    moreover have "le_num D (Num 115)" using D_hi by (cases D) (simp_all add: h)
    ultimately show ?thesis by (simp add: l)
  qed
  have n_D: "isNum D" using cl(1) .
  have c1: "D = Math_min (Math_max np lo) hi" by (simp add: D clamp_def)
  have c2: "jge hi D" using D_hi n_D n_hi by (simp add: jge_def toNumber_isNum)
  have c3: "jge D lo'" using lo'_D n_D n_lo' by (simp add: jge_def toNumber_isNum)
  have c4: "jgt D (Num 0)" using pos n_D by (simp add: jgt_def toNumber_isNum)
  have j1: "jge hi (Num 1) = le_num (Num 1) hi" using n_hi by (simp add: jge_def toNumber_isNum)
  have c5: "if jge hi (Num 1) then jge D lo \<and> jge D (Num 1) else D = hi \<and> jlt D (Num 1)"
  proof (cases "le_num (Num 1) hi")
    case True
    have "jge D lo \<and> jge D (Num 1)"
      using big[OF True] n_D n_lo by (simp add: jge_def toNumber_isNum)
    then show ?thesis using True by (auto simp: j1)
  next
    case False
    from small[OF False] have e: "D = hi" and l: "lt_num D (Num 1)" by blast+
    have "jlt D (Num 1)" using l n_D by (simp add: jlt_def toNumber_isNum)
    with e have "D = hi \<and> jlt D (Num 1)" by blast
    then show ?thesis using False by (auto simp: j1)
  qed
  have c6: "if 1 \<le> p then jge D (Num 1) else True"
    using ge1 n_D by (simp add: jge_def toNumber_isNum)
  have c7: "if p = 100 then jge D (Num 85) \<and> jge (Num 115) D else True"
    using hundred n_D by (simp add: jge_def toNumber_isNum)
  have c8: "if 0 \<le> v \<and> fl v = Num v
            then jge (Num v) (jmul (jsub (jmul (Num r) (Num 2)) (Num 1)) (Num v))
               \<and> jge (jmul (jsub (jmul (Num r) (Num 2)) (Num 1)) (Num v)) (Num (- v))
            else True"
  proof (cases "0 \<le> v \<and> fl v = Num v")
    case True
    then have v: "0 \<le> v" "fl v = Num v" by simp_all
    note b = drift_change_bounds[OF assms(3,4) v]
    have "isNum (jmul (jsub (jmul (Num r) (Num 2)) (Num 1)) (Num v))"
      using le_num_isNum[OF b(1)] by simp
    then have "jge (Num v) (jmul (jsub (jmul (Num r) (Num 2)) (Num 1)) (Num v))
               \<and> jge (jmul (jsub (jmul (Num r) (Num 2)) (Num 1)) (Num v)) (Num (- v))"
      using b by (simp add: jge_def toNumber_isNum)
    then show ?thesis using True by auto
  next
    case False
    then show ?thesis by auto
  qed
  show ?thesis
    using c1 c2 c3 c4 c5 c6 c7 c8
    unfolding D_def np_def lo_def lo'_def hi_def by blast
qed

theorem C6_driftPrice_clamped_witness:
  "driftPrice (7 / 8) (Num 100) (Some (Num (1 / 2))) = Num (8092405580431359 / 70368744177664)
   \<and> jge (Num 115) (driftPrice (7 / 8) (Num 100) (Some (Num (1 / 2))))
   \<and> jge (driftPrice 0 (Num 100) None) (Num 85)
   \<and> jge (driftPrice 0 (Num 3) (Some (Num (1 / 2)))) (Num 1)"
proof -
  have d: "fl 100 = Num 100" "fl 3 = Num 3" by code_simp+
  have v: "(case Some (Num (1 / 2)) of None \<Rightarrow> fl (15 / 1000) | Some v' \<Rightarrow> v') = Num (1 / 2)" by simp
  have w: "(case None of None \<Rightarrow> fl (15 / 1000) | Some v' \<Rightarrow> v') = Num (1080863910568919 / 72057594037927936)"
    by code_simp
  have e: "driftPrice (7 / 8) (Num 100) (Some (Num (1 / 2))) = Num (8092405580431359 / 70368744177664)"
    by code_simp
  have p: "(0::rat) < 100" "(0::rat) < 3" "(0::rat) \<le> 7 / 8" "(7 / 8 :: rat) < 1" "(0::rat) \<le> 0" "(0::rat) < 1"
    by simp_all
  from C6_driftPrice_clamped[OF p(1) d(1) p(3) p(4) v]
  have "if (100::rat) = 100
        then jge (driftPrice (7 / 8) (Num 100) (Some (Num (1 / 2)))) (Num 85)
           \<and> jge (Num 115) (driftPrice (7 / 8) (Num 100) (Some (Num (1 / 2))))
        else True"
    by blast
  then have "jge (Num 115) (driftPrice (7 / 8) (Num 100) (Some (Num (1 / 2))))" by simp
  moreover
  from C6_driftPrice_clamped[OF p(1) d(1) p(5) p(6) w]
  have "if (100::rat) = 100
        then jge (driftPrice 0 (Num 100) None) (Num 85) \<and> jge (Num 115) (driftPrice 0 (Num 100) None)
        else True"
    by blast
  then have "jge (driftPrice 0 (Num 100) None) (Num 85)" by simp
  moreover
  from C6_driftPrice_clamped[OF p(2) d(2) p(5) p(6) v]
  have "if (1::rat) \<le> 3 then jge (driftPrice 0 (Num 3) (Some (Num (1 / 2)))) (Num 1) else True"
    by blast
  then have "jge (driftPrice 0 (Num 3) (Some (Num (1 / 2)))) (Num 1)" by simp
  ultimately show ?thesis using e by simp
qed

section \<open>The cash after a buy with a quantity that is not a number\<close>

text \<open>
  C5. The specification says that the cash is at least zero after every operation of a run from
  the initial state. The code breaks it through the quantity \<open>NaN\<close> of C8: one buy with the
  quantity text \<open>"."\<close> is executed, not rejected, and leaves the cash \<open>NaN\<close>, for which
  \<^verbatim>\<open>cash >= 0\<close> is false.
\<close>

theorem C5_cash_nan_after_buy:
  "cash (run (\<lambda>i. 1 / 2) [Trade env0 ''AAPL'' ''.'' BUY]) = NaN
   \<and> \<not> jge (cash (run (\<lambda>i. 1 / 2) [Trade env0 ''AAPL'' ''.'' BUY])) (Num 0)
   \<and> fst (doTrade env0 ''AAPL'' ''.'' BUY (initialState (\<lambda>i. 1 / 2))) = []"
  by code_simp

section \<open>Loading\<close>

lemma map_of_spreadInto: "map_of (spreadInto obj props) = map_of obj ++ map_of (rev props)"
proof (induction props arbitrary: obj)
  case Nil
  show ?case by (simp add: spreadInto_def)
next
  case (Cons kv props)
  obtain k v where kv: "kv = (k, v)" by (cases kv)
  have "spreadInto obj (kv # props) = spreadInto (AList.update k v obj) props"
    by (simp add: spreadInto_def kv)
  then have "map_of (spreadInto obj (kv # props)) = map_of (AList.update k v obj) ++ map_of (rev props)"
    by (simp only: Cons.IH)
  then show ?case
    by (auto simp: fun_eq_iff map_add_def update_conv kv split: option.splits)
qed

lemma spread_initial: "spreadInto [] (initialStateJ seeds) = initialStateJ seeds"
  by (simp add: spreadInto_def initialStateJ_def Let_def)

text \<open>
  C7. \<^verbatim>\<open>loadState\<close> returns the initial state when the store fails, holds nothing or the
  empty text, or holds a text that \<^verbatim>\<open>JSON.parse\<close> rejects. Otherwise every top-level key of
  the parsed value overrides the default and every key it lacks keeps the default of the
  initial state; in particular, without a \<^verbatim>\<open>settings\<close> key the loaded \<^verbatim>\<open>settings\<close> is
  \<open>{refreshSecs: 8}\<close>.
\<close>

theorem C7_loadState_falls_back:
  "(getItem STORAGE_KEY \<in> {Rejected, Resolved None, Resolved (Some [])}
      \<longrightarrow> loadState seeds getItem JSON_parse = initialStateJ seeds)
   \<and> (getItem STORAGE_KEY = Resolved (Some raw) \<and> JSON_parse raw = None
      \<longrightarrow> loadState seeds getItem JSON_parse = initialStateJ seeds)
   \<and> (getItem STORAGE_KEY = Resolved (Some raw) \<and> raw \<noteq> [] \<and> JSON_parse raw = Some parsed
      \<longrightarrow> map_of (loadState seeds getItem JSON_parse)
            = map_of (initialStateJ seeds) ++ map_of (rev (ownProps parsed))
        \<and> (\<forall>k. k \<notin> fst ` set (ownProps parsed)
              \<longrightarrow> map_of (loadState seeds getItem JSON_parse) k = map_of (initialStateJ seeds) k)
        \<and> (''settings'' \<notin> fst ` set (ownProps parsed)
              \<longrightarrow> map_of (loadState seeds getItem JSON_parse) ''settings''
                  = Some (JObj [(''refreshSecs'', JNum (Num 8))])))"
proof -
  have absent: "loadState seeds getItem JSON_parse = initialStateJ seeds"
    if "getItem STORAGE_KEY \<in> {Rejected, Resolved None, Resolved (Some [])}"
    using that by (auto simp: loadState_def)
  have broken: "loadState seeds getItem JSON_parse = initialStateJ seeds"
    if "getItem STORAGE_KEY = Resolved (Some raw)" "JSON_parse raw = None"
    using that by (simp add: loadState_def)
  have merged: "map_of (loadState seeds getItem JSON_parse)
            = map_of (initialStateJ seeds) ++ map_of (rev (ownProps parsed))"
    if "getItem STORAGE_KEY = Resolved (Some raw)" "raw \<noteq> []" "JSON_parse raw = Some parsed"
    using that by (simp add: loadState_def spread_initial map_of_spreadInto)
  have missing: "(map_of (initialStateJ seeds) ++ map_of (rev (ownProps parsed))) k
                 = map_of (initialStateJ seeds) k"
    if "k \<notin> fst ` set (ownProps parsed)" for k
  proof -
    have "map_of (rev (ownProps parsed)) k = None"
      using that by (simp add: map_of_eq_None_iff)
    then show ?thesis by (simp add: map_add_def)
  qed
  have dflt: "map_of (initialStateJ seeds) ''settings'' = Some (JObj [(''refreshSecs'', JNum (Num 8))])"
    by (simp add: initialStateJ_def initialState_def)
  show ?thesis
    using absent broken merged missing dflt by simp
qed

theorem C7_loadState_falls_back_witness:
  "map_of (loadState (\<lambda>i. 1 / 2) store0 parse0) ''settings'' = Some (JObj [(''refreshSecs'', JNum (Num 8))])
   \<and> map_of (loadState (\<lambda>i. 1 / 2) store0 parse0) ''cash'' = Some (JNum (Num 5))
   \<and> loadState (\<lambda>i. 1 / 2) (\<lambda>key. Rejected) parse0 = initialStateJ (\<lambda>i. 1 / 2)
   \<and> loadState (\<lambda>i. 1 / 2) (\<lambda>key. Resolved (Some ''{'')) parse0 = initialStateJ (\<lambda>i. 1 / 2)"
proof -
  have g: "store0 STORAGE_KEY = Resolved (Some blob0)" by (simp add: store0_def)
  have n: "blob0 \<noteq> []" by (simp add: blob0_def)
  have p: "parse0 blob0 = Some (JObj [(''cash'', JNum (Num 5))])" by (simp add: parse0_def)
  have o: "ownProps (JObj [(''cash'', JNum (Num 5))]) = [(''cash'', JNum (Num 5))]"
    by (simp add: ownProps_def)
  have m: "''settings'' \<notin> fst ` set (ownProps (JObj [(''cash'', JNum (Num 5))]))"
    by (simp add: o)
  have r: "(\<lambda>key. Rejected :: string option settled) STORAGE_KEY
             \<in> {Rejected, Resolved None, Resolved (Some [])}" by simp
  have b: "(\<lambda>key. Resolved (Some ''{'')) STORAGE_KEY = Resolved (Some ''{'')" by simp
  have q: "parse0 ''{'' = None" by (simp add: parse0_def blob0_def)
  note blob = C7_loadState_falls_back[of store0 "\<lambda>i. 1 / 2" parse0 blob0 "JObj [(''cash'', JNum (Num 5))]"]
  have s1: "map_of (loadState (\<lambda>i. 1 / 2) store0 parse0) ''settings''
              = Some (JObj [(''refreshSecs'', JNum (Num 8))])"
    using blob g n p m by blast
  have "map_of (loadState (\<lambda>i. 1 / 2) store0 parse0)
          = map_of (initialStateJ (\<lambda>i. 1 / 2)) ++ map_of (rev (ownProps (JObj [(''cash'', JNum (Num 5))])))"
    using blob g n p by blast
  then have s2: "map_of (loadState (\<lambda>i. 1 / 2) store0 parse0) ''cash'' = Some (JNum (Num 5))"
    by (simp add: o)
  have s3: "loadState (\<lambda>i. 1 / 2) (\<lambda>key. Rejected) parse0 = initialStateJ (\<lambda>i. 1 / 2)"
    using C7_loadState_falls_back[of "\<lambda>key. Rejected" "\<lambda>i. 1 / 2" parse0 blob0 "JObj []"] r
    by blast
  have s4: "loadState (\<lambda>i. 1 / 2) (\<lambda>key. Resolved (Some ''{'')) parse0 = initialStateJ (\<lambda>i. 1 / 2)"
    using C7_loadState_falls_back[of "\<lambda>key. Resolved (Some ''{'')" "\<lambda>i. 1 / 2" parse0 "''{''" "JObj []"] b q
    by blast
  show ?thesis using s1 s2 s3 s4 by blast
qed

section \<open>Profit and loss of a position without a price\<close>

lemma add_num_isDouble: "isDouble (add_num a b)"
  by (cases a; cases b) (simp_all add: fl_isDouble)

lemma jadd_isDouble: "isDouble (jadd a b)"
  by (simp add: jadd_def add_num_isDouble)

lemma jadd_zero: "isDouble acc \<Longrightarrow> jadd acc (Num 0) = acc"
  by (cases acc) (simp_all add: jadd_def)

lemma lookupPrice_absent:
  "map_of priceMap k = None \<Longrightarrow> k \<notin> set protoKeys \<Longrightarrow> nullish (lookupPrice priceMap k) (Num 0) = Num 0"
  by (simp add: lookupPrice_def inherited_def nullish_def)

lemma equityStep_isDouble: "isDouble acc \<Longrightarrow> isDouble (equityStep hs priceMap acc k)"
  by (simp add: equityStep_def jadd_isDouble Let_def split: option.splits)

lemma equityStep_unpriced:
  assumes "map_of hs symb = Some h" and "h_qty h = Num q"
    and "map_of priceMap symb = None" and "symb \<notin> set protoKeys" and "isDouble acc"
  shows "equityStep hs priceMap acc symb = acc"
  using assms
  by (simp add: equityStep_def lookupPrice_absent jmul_def fl_zero jadd_zero)

lemma equityStep_delete_other:
  "k \<noteq> symb \<Longrightarrow> equityStep (AList.delete symb hs) priceMap acc k = equityStep hs priceMap acc k"
  by (simp add: equityStep_def delete_conv')

lemma foldl_equity_delete:
  assumes "\<And>acc. isDouble acc \<Longrightarrow> equityStep hs priceMap acc symb = acc" and "isDouble acc"
  shows "foldl (equityStep (AList.delete symb hs) priceMap) acc (filter (\<lambda>k. k \<noteq> symb) ks)
         = foldl (equityStep hs priceMap) acc ks"
  using assms(2)
proof (induction ks arbitrary: acc)
  case Nil
  show ?case by simp
next
  case (Cons k ks)
  show ?case
  proof (cases "k = symb")
    case True
    then show ?thesis using Cons.IH[OF Cons.prems] assms(1)[OF Cons.prems] by simp
  next
    case False
    then show ?thesis
      using Cons.IH[OF equityStep_isDouble[OF Cons.prems, of hs priceMap k]]
      by (simp add: equityStep_delete_other)
  qed
qed

lemma keys_delete: "map fst (AList.delete symb hs) = filter (\<lambda>k. k \<noteq> symb) (map fst hs)"
  by (induction hs) auto

text \<open>
  C10, as stated, fails. A position can have the quantity \<open>NaN\<close> (after the buy of C8);
  when its symbol leaves the watchlist, the equity is \<open>NaN\<close>, not the equity of the other
  holdings. And the profit is the double product: for 3 shares at the average \<open>100.1\<close> it
  is \<open>-300.29999999999995\<close>, which is not \<open>-(100.1 * 3)\<close>.
\<close>

theorem C10_stray_position:
  "map_of (holdings strayState) ''AAPL'' = Some \<lparr>h_qty = NaN, h_avg = Num 200\<rparr>
   \<and> lookupPrice (priceMapFrom (watchlist strayState)) ''AAPL'' = Undefined
   \<and> equity (holdings strayState) (priceMapFrom (watchlist strayState)) = NaN
   \<and> equity (AList.delete ''AAPL'' (holdings strayState)) (priceMapFrom (watchlist strayState)) = Num 0
   \<and> pnlForSymbol ''AAPL'' ([(''AAPL'', \<lparr>h_qty = Num 3, h_avg = Num (3521955646092083 / 35184372088832)\<rparr>)], None) []
       = \<lparr>pnl = Num (- (1320733367284531 / 4398046511104)), change = Num (- 1)\<rparr>
   \<and> (- (1320733367284531 / 4398046511104) :: rat) \<noteq> - (3521955646092083 / 35184372088832) * 3"
  unfolding strayState_def by code_simp

text \<open>
  C10, amended. For a symbol with an own position \<open>{qty: q, avg: a}\<close> of finite numbers,
  \<open>a\<close> a double, that has no entry in the price map and is not a name inherited from
  \<^verbatim>\<open>Object.prototype\<close>, \<^verbatim>\<open>pnlForSymbol\<close> takes the last price as \<open>0\<close>: the profit is minus the
  double product \<open>a * q\<close>, and the change is \<open>-1\<close> when \<open>a\<close> is not zero (\<open>0\<close> when it is). The
  equity reduction adds \<open>0\<close> for the position, which leaves every sum it has reached as
  it is: the equity equals that of the holdings without it.
\<close>

theorem C10_unpriced_position:
  fixes q a :: rat
  assumes "map_of hs symb = Some \<lparr>h_qty = Num q, h_avg = Num a\<rparr>" and "fl a = Num a"
    and "map_of priceMap symb = None" and "symb \<notin> set protoKeys"
  shows "pnlForSymbol symb (hs, proto) priceMap =
           \<lparr>pnl = neg_num (jmul (Num a) (Num q)), change = (if a = 0 then Num 0 else Num (- 1))\<rparr>
         \<and> (if isDouble acc then equityStep hs priceMap acc symb = acc else True)
         \<and> equity hs priceMap = equity (AList.delete symb hs) priceMap"
proof -
  have l: "lookupHolding hs proto symb = HPos \<lparr>h_qty = Num q, h_avg = Num a\<rparr>"
    using assms(1) by (rule lookupHolding_own)
  have z: "nullish (lookupPrice priceMap symb) (Num 0) = Num 0"
    using assms(3,4) by (rule lookupPrice_absent)
  have na: "jsub (Num 0) (Num a) = Num (- a)"
    using fl_uminus[of a] by (simp add: jsub_def assms(2))
  have pn: "jmul (Num (- a)) (Num q) = neg_num (jmul (Num a) (Num q))"
    using fl_uminus[of "a * q"] by (simp add: jmul_def)
  have ch: "jdiv (Num (- a)) (Num a) = Num (- 1)" if "a \<noteq> 0"
    using that fl_uminus[of 1] by (simp add: jdiv_def fl_one)
  have p: "pnlForSymbol symb (hs, proto) priceMap =
           \<lparr>pnl = neg_num (jmul (Num a) (Num q)), change = (if a = 0 then Num 0 else Num (- 1))\<rparr>"
    using ch by (simp add: pnlForSymbol_def l z na pn Let_def)
  have e: "equityStep hs priceMap acc symb = acc" if "isDouble acc" for acc
    using equityStep_unpriced[OF assms(1) _ assms(3,4) that] by simp
  have d0: "isDouble (Num 0)" by (simp add: fl_zero)
  have "equity (AList.delete symb hs) priceMap = equity hs priceMap"
    unfolding equity_def keys_delete using foldl_equity_delete[OF e d0] by simp
  moreover have "if isDouble acc then equityStep hs priceMap acc symb = acc else True"
    using e by simp
  ultimately show ?thesis using p by simp
qed

theorem C10_unpriced_position_witness:
  "pnlForSymbol ''AAPL'' (holdings (held 7700 3 (3521955646092083 / 35184372088832)), None) []
     = \<lparr>pnl = Num (- (1320733367284531 / 4398046511104)), change = Num (- 1)\<rparr>
   \<and> equity (holdings (held 7700 3 (3521955646092083 / 35184372088832))) [] = Num 0"
proof -
  have a: "map_of (holdings (held 7700 3 (3521955646092083 / 35184372088832))) ''AAPL''
             = Some \<lparr>h_qty = Num 3, h_avg = Num (3521955646092083 / 35184372088832)\<rparr>"
    by (simp add: held_def)
  have d: "fl (3521955646092083 / 35184372088832) = Num (3521955646092083 / 35184372088832)" by code_simp
  have b: "map_of ([] :: (string \<times> jsval) list) ''AAPL'' = None" by simp
  have k: "''AAPL'' \<notin> set protoKeys" by code_simp
  have c: "equity (AList.delete ''AAPL'' (holdings (held 7700 3 (3521955646092083 / 35184372088832)))) [] = Num 0"
    by (simp add: held_def equity_def)
  have v: "neg_num (jmul (Num (3521955646092083 / 35184372088832)) (Num 3))
             = Num (- (1320733367284531 / 4398046511104))"
    by code_simp
  from C10_unpriced_position[OF a d b k, of None "Num 0"]
  show ?thesis unfolding v c by simp
qed

end
